theory Spec2Isabelle
  imports Complex_Main "HOL-Library.Sublist"
begin

chapter \<open>funq client models: tree items, named paths, class dispatch, property proxy\<close>

text \<open>
  A shallow embedding of \<^verbatim>\<open>client/funq/models.py\<close>. Python objects become datatypes
  and records, every \<^verbatim>\<open>raise\<close> becomes an \<open>Inl\<close> result, and the command channel
  \<^verbatim>\<open>client.send_command\<close> becomes explicit state passing: a client holds the state of
  the remote side and the list of commands sent so far.
\<close>

section \<open>Decoded JSON values and Python errors\<close>

text \<open>
  What \<^verbatim>\<open>json\<close> decoding hands to the models. Numbers are reals (Python compares
  \<^verbatim>\<open>int\<close> and \<^verbatim>\<open>float\<close> by value); a dict is an association list whose keys are
  distinct, read with \<open>map_of\<close>.
\<close>

datatype json =
    JNull
  | JBool bool
  | JNum real
  | JStr string
  | JArr "json list"
  | JObj "(string \<times> json) list"

type_synonym dict = "(string \<times> json) list"

datatype error =
    TypeError
  | KeyError string
  | AttributeError string
  | ValueError string
  | AssertionError string
  | RemoteError string

text \<open>Python's \<^verbatim>\<open>==\<close> on decoded values: \<^verbatim>\<open>True == 1\<close>, lists compare
  element by element, dicts as mappings.\<close>

fun py_eq :: "json \<Rightarrow> json \<Rightarrow> bool" where
  "py_eq JNull JNull = True"
| "py_eq (JBool a) (JBool b) = (a = b)"
| "py_eq (JBool a) (JNum y) = ((if a then 1 else 0) = y)"
| "py_eq (JNum x) (JBool b) = (x = (if b then 1 else 0))"
| "py_eq (JNum x) (JNum y) = (x = y)"
| "py_eq (JStr s) (JStr t) = (s = t)"
| "py_eq (JArr xs) (JArr ys) = list_all2 py_eq xs ys"
| "py_eq (JObj a) (JObj b) =
     (set (map fst a) = set (map fst b) \<and>
      list_all (\<lambda>kv. case map_of b (fst kv) of None \<Rightarrow> False | Some w \<Rightarrow> py_eq (snd kv) w) a)"
| "py_eq _ _ = False"

text \<open>\<^verbatim>\<open>for x in v\<close>: a list yields its elements, a string its characters, a dict its
  keys; anything else is not iterable.\<close>

fun py_iter :: "json \<Rightarrow> error + json list" where
  "py_iter (JArr xs) = Inr xs"
| "py_iter (JStr s) = Inr (map (\<lambda>c. JStr [c]) s)"
| "py_iter (JObj kvs) = Inr (map (\<lambda>kv. JStr (fst kv)) kvs)"
| "py_iter _ = Inl TypeError"

text \<open>\<^verbatim>\<open>v[name]\<close> with a string key, and \<^verbatim>\<open>v.get(name)\<close>.\<close>

fun py_getitem :: "json \<Rightarrow> string \<Rightarrow> error + json" where
  "py_getitem (JObj kvs) name =
     (case map_of kvs name of None \<Rightarrow> Inl (KeyError name) | Some v \<Rightarrow> Inr v)"
| "py_getitem _ name = Inl TypeError"

fun py_get :: "json \<Rightarrow> string \<Rightarrow> error + json" where
  "py_get (JObj kvs) name = (case map_of kvs name of None \<Rightarrow> Inr JNull | Some v \<Rightarrow> Inr v)"
| "py_get _ name = Inl (AttributeError ''get'')"

text \<open>An f-string field \<^verbatim>\<open>{v}\<close>: a string stands for itself, any other value is
  rendered by the builtin \<^verbatim>\<open>str\<close>, taken as the parameter \<open>render\<close>.\<close>

definition py_format :: "(json \<Rightarrow> string) \<Rightarrow> json \<Rightarrow> string" where
  "py_format render v = (case v of JStr s \<Rightarrow> s | _ \<Rightarrow> render v)"

text \<open>A list comprehension whose element expression may raise: the first error wins.\<close>

fun collect :: "(error + 'a) list \<Rightarrow> error + 'a list" where
  "collect [] = Inr []"
| "collect (x # xs) =
     (case x of
        Inl e \<Rightarrow> Inl e
      | Inr a \<Rightarrow> (case collect xs of Inl e \<Rightarrow> Inl e | Inr as \<Rightarrow> Inr (a # as)))"

section \<open>TreeItem and TreeItems\<close>

text \<open>
  A \<^verbatim>\<open>TreeItem\<close> is its attributes and its list of sub-items. \<^verbatim>\<open>TreeItem.__init__\<close>
  copies every key of the descriptor onto the instance and then replaces the attribute
  \<^verbatim>\<open>items\<close> by the items built from \<^verbatim>\<open>getattr(self, 'items', [])\<close>.
\<close>

datatype 'a tree_item = TreeItem (attrs: 'a) (items: "'a tree_item list")

lemma size_map_of:
  "map_of kvs k = Some v \<Longrightarrow> size v < Suc (size_list (size_prod (\<lambda>_. 0) size) kvs)"
  by (induction kvs) (auto split: if_splits)

lemma size_py_iter: "py_iter v = Inr ds \<Longrightarrow> d \<in> set ds \<Longrightarrow> size d \<le> size v"
proof (cases v)
  case (JArr xs)
  assume "py_iter v = Inr ds" "d \<in> set ds"
  with JArr have "d \<in> set xs" by simp
  then have "size d \<le> size_list size xs" by (simp add: size_list_estimation')
  with JArr show ?thesis by simp
qed auto

function TreeItem_init :: "json \<Rightarrow> error + dict tree_item" where
  "TreeItem_init data =
     (case data of
        JObj kvs \<Rightarrow>
          (case (case map_of kvs ''items'' of None \<Rightarrow> Inr [] | Some v \<Rightarrow> py_iter v) of
             Inl e \<Rightarrow> Inl e
           | Inr ds \<Rightarrow>
               (case collect (map TreeItem_init ds) of
                  Inl e \<Rightarrow> Inl e
                | Inr cs \<Rightarrow> Inr (TreeItem (filter (\<lambda>kv. fst kv \<noteq> ''items'') kvs) cs)))
      | _ \<Rightarrow> Inl (AttributeError ''items''))"
  by pat_completeness auto
termination
proof (relation "measure size")
  show "wf (measure size)" by simp
next
  fix data :: json and kvs x2 ds d
  assume "data = JObj kvs"
    and "(case map_of kvs ''items'' of None \<Rightarrow> Inr [] | Some v \<Rightarrow> py_iter v) = Inr x2"
    and "d \<in> set x2"
  then show "(d, data) \<in> measure size"
    by (auto split: option.splits dest!: size_map_of size_py_iter)
qed

declare TreeItem_init.simps [simp del]

text \<open>\<^verbatim>\<open>TreeItems.__init__\<close> reads \<^verbatim>\<open>data['items']\<close> and builds one item per element.
  A collection is modelled by its list of top-level items.\<close>

definition TreeItems_init :: "json \<Rightarrow> error + dict tree_item list" where
  "TreeItems_init data =
     (case py_getitem data ''items'' of
        Inl e \<Rightarrow> Inl e
      | Inr v \<Rightarrow>
          (case py_iter v of
             Inl e \<Rightarrow> Inl e
           | Inr ds \<Rightarrow> collect (map TreeItem_init ds)))"

text \<open>\<^verbatim>\<open>TreeItems.__iter__\<close>: the inner generator yields an item and then everything
  the generator yields for its sub-items. The generator is finite, so it is its list.\<close>

fun TreeItems_iter :: "'a tree_item list \<Rightarrow> 'a tree_item list" where
  "TreeItems_iter [] = []"
| "TreeItems_iter (TreeItem a cs # rest) = TreeItem a cs # TreeItems_iter cs @ TreeItems_iter rest"

text \<open>
  Nodes are told apart by their position: the list of child indices leading from the top
  level to the node. \<open>node_at\<close> reads the node at a position; \<open>iter_pos\<close> is the generator
  above, yielding each node together with its position.
\<close>

fun node_at :: "'a tree_item list \<Rightarrow> nat list \<Rightarrow> 'a tree_item option" where
  "node_at xs [] = None"
| "node_at xs [i] = (if i < length xs then Some (xs ! i) else None)"
| "node_at xs (i # j # p) = (if i < length xs then node_at (items (xs ! i)) (j # p) else None)"

fun iter_pos :: "nat list \<Rightarrow> nat \<Rightarrow> 'a tree_item list \<Rightarrow> (nat list \<times> 'a tree_item) list" where
  "iter_pos pre k [] = []"
| "iter_pos pre k (TreeItem a cs # rest) =
     (pre @ [k], TreeItem a cs) # iter_pos (pre @ [k]) 0 cs @ iter_pos pre (Suc k) rest"

fun tree_size :: "'a tree_item \<Rightarrow> nat" where
  "tree_size (TreeItem a cs) = Suc (sum_list (map tree_size cs))"

section \<open>ModelItem and the named-path resolver\<close>

text \<open>
  A \<^verbatim>\<open>ModelItem\<close> is a \<^verbatim>\<open>TreeItem\<close> whose attributes are the documented ones:
  \<^verbatim>\<open>modelid\<close>, \<^verbatim>\<open>row\<close> and \<^verbatim>\<open>column\<close> (the coordinates of a model index, never
  negative), \<^verbatim>\<open>value\<close> (the text; \<open>item_value\<close> here), \<^verbatim>\<open>check_state\<close> and
  \<^verbatim>\<open>itempath\<close> (each a string or \<^verbatim>\<open>None\<close>).
\<close>

record model_attrs =
  modelid :: int
  row :: nat
  column :: nat
  item_value :: string
  check_state :: "string option"
  itempath :: "string option"

type_synonym ModelItem = "model_attrs tree_item"

text \<open>\<^verbatim>\<open>str.split(sep)\<close> for a given separator: an empty separator raises.\<close>

function split_from :: "string \<Rightarrow> string \<Rightarrow> string \<Rightarrow> string list" where
  "split_from sep acc [] = [rev acc]"
| "split_from sep acc (c # cs) =
     (if sep \<noteq> [] \<and> prefix sep (c # cs)
      then rev acc # split_from sep [] (drop (length sep) (c # cs))
      else split_from sep (c # acc) cs)"
  by pat_completeness auto
termination
  by (relation "measure (\<lambda>(sep, acc, s). length s)") (auto simp: neq_Nil_conv)

definition py_split :: "string \<Rightarrow> string \<Rightarrow> error + string list" where
  "py_split s sep =
     (if sep = [] then Inl (ValueError ''empty separator'') else Inr (split_from sep [] s))"

datatype named_path = PathList "string list" | PathStr string

text \<open>
  The \<^verbatim>\<open>for item_ in item.items\<close> loop of \<^verbatim>\<open>row_by_named_path\<close>, for one path part.
  \<open>is_last\<close> is \<^verbatim>\<open>not parts\<close> after the pop; \<open>level\<close> is the whole \<^verbatim>\<open>item.items\<close>,
  which the row comprehension filters. The loop either returns the row from inside, or
  runs to its end and leaves \<^verbatim>\<open>next_item\<close>.
\<close>

datatype scan = Return "ModelItem list" | Next "ModelItem option"

fun scan_level ::
  "int \<Rightarrow> string \<Rightarrow> bool \<Rightarrow> ModelItem list \<Rightarrow> ModelItem list \<Rightarrow> ModelItem option \<Rightarrow> scan" where
  "scan_level match_column part is_last level [] next_item = Next next_item"
| "scan_level match_column part is_last level (item # rest) next_item =
     (if match_column = int (column (attrs item)) \<and> item_value (attrs item) = part
      then (if is_last
            then Return (sort_key (\<lambda>it. column (attrs it))
                           (filter (\<lambda>it. row (attrs it) = row (attrs item)) level))
            else scan_level match_column part is_last level rest (Some item))
      else scan_level match_column part is_last level rest next_item)"

text \<open>
  The \<^verbatim>\<open>while item and parts\<close> loop. The cursor \<^verbatim>\<open>item\<close> is the collection, a model
  item or \<^verbatim>\<open>None\<close>; only its \<^verbatim>\<open>items\<close> are read, so it is \<open>Some\<close> of them or \<open>None\<close>.
\<close>

fun path_loop :: "int \<Rightarrow> ModelItem list option \<Rightarrow> string list \<Rightarrow> ModelItem list option" where
  "path_loop match_column None parts = None"
| "path_loop match_column (Some level) [] = None"
| "path_loop match_column (Some level) (part # parts) =
     (case scan_level match_column part (parts = []) level level None of
        Return found \<Rightarrow> Some found
      | Next None \<Rightarrow> path_loop match_column None parts
      | Next (Some item) \<Rightarrow> path_loop match_column (Some (items item)) parts)"

definition row_by_named_path ::
  "ModelItem list \<Rightarrow> named_path \<Rightarrow> int \<Rightarrow> string \<Rightarrow> error + ModelItem list option" where
  "row_by_named_path self named_path match_column sep =
     (case (case named_path of PathList ps \<Rightarrow> Inr ps | PathStr s \<Rightarrow> py_split s sep) of
        Inl e \<Rightarrow> Inl e
      | Inr parts \<Rightarrow> Inr (path_loop match_column (Some self) parts))"

text \<open>
  The resolver as it is described, written from the description rather than from the
  loop. A part \<open>matches\<close> an item when the item is in the match column and carries the
  part as its text; \<open>full_row\<close> is the row of an item within its level, sorted by
  column; \<open>resolve_first\<close> takes the first matching item at every level, descends into
  its children while parts remain, and gives \<open>None\<close> where no item matches.
\<close>

definition matches :: "int \<Rightarrow> string \<Rightarrow> ModelItem \<Rightarrow> bool" where
  "matches match_column part item =
     (match_column = int (column (attrs item)) \<and> item_value (attrs item) = part)"

definition full_row :: "ModelItem list \<Rightarrow> ModelItem \<Rightarrow> ModelItem list" where
  "full_row level item =
     sort_key (\<lambda>it. column (attrs it)) (filter (\<lambda>it. row (attrs it) = row (attrs item)) level)"

fun resolve_first :: "int \<Rightarrow> ModelItem list \<Rightarrow> string list \<Rightarrow> ModelItem list option" where
  "resolve_first match_column level [] = None"
| "resolve_first match_column level [part] =
     (case find (matches match_column part) level of
        None \<Rightarrow> None
      | Some item \<Rightarrow> Some (full_row level item))"
| "resolve_first match_column level (part # parts) =
     (case find (matches match_column part) level of
        None \<Rightarrow> None
      | Some item \<Rightarrow> resolve_first match_column (items item) parts)"

section \<open>WidgetMetaClass: the class registry and dispatch\<close>

text \<open>
  The classes that \<^verbatim>\<open>models.py\<close> declares with the metaclass, and the registry
  \<^verbatim>\<open>_cpp_classes\<close> that \<^verbatim>\<open>__new__\<close> fills as each class statement runs: a class
  declared with a non-empty \<^verbatim>\<open>cpp_class\<close> is stored under that name, a later one
  overwriting an earlier one.
\<close>

datatype widget_class =
    Object | Action | AbstractItemModel | Widget | AbstractItemView | TableView | TreeView
  | TabBar | GraphicsView | ComboBox | HeaderView | QuickItem | QuickWindow

definition register :: "string option \<Rightarrow> 'c \<Rightarrow> (string \<rightharpoonup> 'c) \<Rightarrow> (string \<rightharpoonup> 'c)" where
  "register cpp_class cls reg =
     (case cpp_class of
        None \<Rightarrow> reg
      | Some name \<Rightarrow> if name = [] then reg else reg(name \<mapsto> cls))"

definition class_statements :: "(string option \<times> widget_class) list" where
  "class_statements =
     [(None, Object), (None, Action), (None, AbstractItemModel), (None, Widget),
      (Some ''QAbstractItemView'', AbstractItemView), (Some ''QTableView'', TableView),
      (Some ''QTreeView'', TreeView), (Some ''QTabBar'', TabBar),
      (Some ''QGraphicsView'', GraphicsView), (Some ''QComboBox'', ComboBox),
      (Some ''QHeaderView'', HeaderView), (Some ''QQuickItem'', QuickItem),
      (Some ''QQuickWindow'', QuickWindow)]"

definition cpp_classes :: "string \<rightharpoonup> widget_class" where
  "cpp_classes = fold (\<lambda>(cpp_class, cls). register cpp_class cls) class_statements Map.empty"

text \<open>An instance: its class and the attributes \<^verbatim>\<open>Object.__init__\<close> copied from the
  descriptor. \<^verbatim>\<open>oid\<close> and \<^verbatim>\<open>path\<close> are read from them, with the class-level default
  \<^verbatim>\<open>None\<close>.\<close>

record 'c obj =
  obj_class :: 'c
  obj_attrs :: dict

definition Object_init :: "'c \<Rightarrow> dict \<Rightarrow> 'c obj" where
  "Object_init cls data = \<lparr>obj_class = cls, obj_attrs = data\<rparr>"

definition getattr_default :: "dict \<Rightarrow> string \<Rightarrow> json" where
  "getattr_default as name = (case map_of as name of None \<Rightarrow> JNull | Some v \<Rightarrow> v)"

definition oid_of :: "'c obj \<Rightarrow> json" where
  "oid_of self = getattr_default (obj_attrs self) ''oid''"

definition path_of :: "'c obj \<Rightarrow> json" where
  "path_of self = getattr_default (obj_attrs self) ''path''"

text \<open>
  The \<^verbatim>\<open>for cppcls in data.get('classes', [])\<close> loop of \<^verbatim>\<open>WidgetMetaClass.__call__\<close>.
  It ends by raising (a list or a dict cannot be looked up in a dict), by returning the
  call of another registered class, or, after \<^verbatim>\<open>break\<close> or at the end of the chain, by
  going on to \<^verbatim>\<open>super().__call__\<close>.
\<close>

datatype 'c chain_walk = Raise error | Dispatch 'c | Direct

fun walk_chain :: "(string \<rightharpoonup> 'c) \<Rightarrow> 'c \<Rightarrow> json list \<Rightarrow> 'c chain_walk" where
  "walk_chain reg cls [] = Direct"
| "walk_chain reg cls (JStr name # rest) =
     (case reg name of
        None \<Rightarrow> walk_chain reg cls rest
      | Some c \<Rightarrow> if c = cls then Direct else Dispatch c)"
| "walk_chain reg cls (JArr xs # rest) = Raise TypeError"
| "walk_chain reg cls (JObj kvs # rest) = Raise TypeError"
| "walk_chain reg cls (other # rest) = walk_chain reg cls rest"

definition class_chain :: "json \<Rightarrow> error + json list" where
  "class_chain data =
     (case data of
        JObj kvs \<Rightarrow> (case map_of kvs ''classes'' of None \<Rightarrow> Inr [] | Some v \<Rightarrow> py_iter v)
      | _ \<Rightarrow> Inl (AttributeError ''get''))"

definition dispatch_depth :: "(string \<rightharpoonup> 'c) \<Rightarrow> 'c \<Rightarrow> json \<Rightarrow> nat" where
  "dispatch_depth reg cls data =
     (case class_chain data of
        Inl e \<Rightarrow> 0
      | Inr chain \<Rightarrow> (case walk_chain reg cls chain of Dispatch c \<Rightarrow> 1 | _ \<Rightarrow> 0))"

lemma walk_chain_Dispatch_Direct:
  "walk_chain reg cls chain = Dispatch c \<Longrightarrow> walk_chain reg c chain = Direct"
  by (induction reg cls chain rule: walk_chain.induct) (auto split: option.splits if_splits)

function call_meta :: "(string \<rightharpoonup> 'c) \<Rightarrow> 'c \<Rightarrow> json \<Rightarrow> error + 'c obj" where
  "call_meta reg cls data =
     (case class_chain data of
        Inl e \<Rightarrow> Inl e
      | Inr chain \<Rightarrow>
          (case walk_chain reg cls chain of
             Raise e \<Rightarrow> Inl e
           | Dispatch c \<Rightarrow> call_meta reg c data
           | Direct \<Rightarrow> (case data of JObj kvs \<Rightarrow> Inr (Object_init cls kvs)
                        | _ \<Rightarrow> Inl (AttributeError ''items''))))"
  by pat_completeness auto
termination
proof (relation "measure (\<lambda>(reg, cls, data). dispatch_depth reg cls data)")
  show "wf (measure (\<lambda>(reg, cls, data). dispatch_depth reg cls data))" by simp
next
  fix reg :: "string \<rightharpoonup> 'c" and cls c :: 'c and data chain
  assume "class_chain data = Inr chain" and "walk_chain reg cls chain = Dispatch c"
  then show "((reg, c, data), (reg, cls, data)) \<in> measure (\<lambda>(reg, cls, data). dispatch_depth reg cls data)"
    by (simp add: dispatch_depth_def walk_chain_Dispatch_Direct)
qed

declare call_meta.simps [simp del]

section \<open>The command channel\<close>

text \<open>
  \<^verbatim>\<open>client.send_command(name, **kwargs)\<close> is the only way to the remote side. The
  remote side is a parameter: a state \<open>'w\<close> and a server that answers a command with a
  decoded reply or an error and moves to a new state. A client records every command it
  sends. The reply to \<^verbatim>\<open>model_items\<close> is taken in the form in which
  \<^verbatim>\<open>ModelItems(client, data)\<close> hands it on, as the list of top-level model items.

  Descriptor keys are taken not to shadow the methods of the instance they are copied to.
\<close>

datatype command = Command (cmd_name: string) (cmd_args: dict)

record 'w client =
  remote :: 'w
  sent :: "command list"

record 'w server =
  answer :: "'w \<Rightarrow> command \<Rightarrow> (error + json) \<times> 'w"
  answer_items :: "'w \<Rightarrow> command \<Rightarrow> (error + ModelItem list) \<times> 'w"

type_synonym ('w, 'a) remote_op = "'w client \<Rightarrow> (error + 'a) \<times> 'w client"

definition op_lift :: "error + 'a \<Rightarrow> ('w, 'a) remote_op" where
  "op_lift r cl = (r, cl)"

definition op_bind :: "('w, 'a) remote_op \<Rightarrow> ('a \<Rightarrow> ('w, 'b) remote_op) \<Rightarrow> ('w, 'b) remote_op" where
  "op_bind m f cl = (case m cl of (Inl e, cl') \<Rightarrow> (Inl e, cl') | (Inr x, cl') \<Rightarrow> f x cl')"

definition send_command :: "'w server \<Rightarrow> string \<Rightarrow> dict \<Rightarrow> ('w, json) remote_op" where
  "send_command srv name kwargs cl =
     (case answer srv (remote cl) (Command name kwargs) of
        (r, w) \<Rightarrow> (r, \<lparr>remote = w, sent = sent cl @ [Command name kwargs]\<rparr>))"

section \<open>Object: the property proxy and the property operations\<close>

text \<open>\<^verbatim>\<open>Object.Properties\<close>, bound to the object \<open>self\<close>: \<^verbatim>\<open>__call__\<close>,
  \<^verbatim>\<open>__getitem__\<close>, \<^verbatim>\<open>__getattr__\<close>, \<^verbatim>\<open>__setitem__\<close> and \<^verbatim>\<open>__setattr__\<close>; then
  \<^verbatim>\<open>Object.set_properties\<close> and \<^verbatim>\<open>Object.set_property\<close>.\<close>

definition Properties_call :: "'w server \<Rightarrow> 'c obj \<Rightarrow> ('w, json) remote_op" where
  "Properties_call srv self = send_command srv ''object_properties'' [(''oid'', oid_of self)]"

definition Properties_getitem :: "'w server \<Rightarrow> 'c obj \<Rightarrow> string \<Rightarrow> ('w, json) remote_op" where
  "Properties_getitem srv self item =
     op_bind (Properties_call srv self) (\<lambda>properties. op_lift (py_getitem properties item))"

definition Properties_getattr :: "'w server \<Rightarrow> 'c obj \<Rightarrow> string \<Rightarrow> ('w, json) remote_op" where
  "Properties_getattr srv self item =
     op_bind (Properties_call srv self) (\<lambda>properties. op_lift (py_getitem properties item))"

definition set_properties :: "'w server \<Rightarrow> 'c obj \<Rightarrow> dict \<Rightarrow> ('w, unit) remote_op" where
  "set_properties srv self properties =
     op_bind
       (send_command srv ''object_set_properties''
          [(''oid'', oid_of self), (''properties'', JObj properties)])
       (\<lambda>reply. op_lift (Inr ()))"

text \<open>
  \<^verbatim>\<open>set_property\<close>, \<^verbatim>\<open>__setitem__\<close> and \<^verbatim>\<open>__setattr__\<close> call
  \<^verbatim>\<open>set_properties(**{name: value})\<close>. The method is declared
  \<^verbatim>\<open>def set_properties(self, **properties)\<close>, so a keyword named \<^verbatim>\<open>self\<close> collides with
  its first parameter: the call raises \<^verbatim>\<open>TypeError\<close> before the body runs.
\<close>

definition call_set_properties :: "'w server \<Rightarrow> 'c obj \<Rightarrow> dict \<Rightarrow> ('w, unit) remote_op" where
  "call_set_properties srv self kwargs =
     (if ''self'' \<in> set (map fst kwargs)
      then op_lift (Inl TypeError)
      else set_properties srv self kwargs)"

definition set_property :: "'w server \<Rightarrow> 'c obj \<Rightarrow> string \<Rightarrow> json \<Rightarrow> ('w, unit) remote_op" where
  "set_property srv self name v = call_set_properties srv self [(name, v)]"

definition Properties_setitem :: "'w server \<Rightarrow> 'c obj \<Rightarrow> string \<Rightarrow> json \<Rightarrow> ('w, unit) remote_op" where
  "Properties_setitem srv self item v = call_set_properties srv self [(item, v)]"

definition Properties_setattr :: "'w server \<Rightarrow> 'c obj \<Rightarrow> string \<Rightarrow> json \<Rightarrow> ('w, unit) remote_op" where
  "Properties_setattr srv self item v = call_set_properties srv self [(item, v)]"

text \<open>
  The expression \<^verbatim>\<open>proxy.name\<close> looks the name up on the instance and on its class
  first, and calls \<^verbatim>\<open>__getattr__\<close> only for a name it does not find there. The
  instance holds the one attribute that \<^verbatim>\<open>__init__\<close> stores, \<^verbatim>\<open>_Properties__obj\<close>;
  the class holds the seven methods of its body; the names that every Python object has
  besides (\<^verbatim>\<open>__class__\<close>, \<^verbatim>\<open>__dict__\<close>, \<^verbatim>\<open>__doc__\<close> and so on) are the parameter
  \<open>object_attrs\<close>. An assignment \<^verbatim>\<open>proxy.name = v\<close> always calls \<^verbatim>\<open>__setattr__\<close>.
\<close>

definition Properties_methods :: "string list" where
  "Properties_methods =
     [''__init__'', ''__call__'', ''__contains__'', ''__getitem__'', ''__setitem__'',
      ''__getattr__'', ''__setattr__'']"

definition proxy_attribute :: "string list \<Rightarrow> string \<Rightarrow> bool" where
  "proxy_attribute object_attrs item =
     (item = ''_Properties__obj'' \<or> item \<in> set Properties_methods \<or> item \<in> set object_attrs)"

datatype attr_value = Own_attribute | Property json

definition Properties_attribute_read ::
  "string list \<Rightarrow> 'w server \<Rightarrow> 'c obj \<Rightarrow> string \<Rightarrow> ('w, attr_value) remote_op" where
  "Properties_attribute_read object_attrs srv self item =
     (if proxy_attribute object_attrs item
      then op_lift (Inr Own_attribute)
      else op_bind (Properties_getattr srv self item) (\<lambda>v. op_lift (Inr (Property v))))"

text \<open>
  Modelled from the spec: \<^verbatim>\<open>funq.tools.wait_for\<close> is imported by \<^verbatim>\<open>models.py\<close> but
  is not among the sources. The spec has it evaluate the predicate at once and return
  true if it holds, and otherwise sleep and evaluate again until the predicate holds or
  the timeout has elapsed, when it returns false; a failure of the predicate is passed
  on. The wall clock is abstracted to \<open>polls\<close>, the number of further evaluations
  that fit before the timeout.
\<close>

fun wait_for :: "('w, bool) remote_op \<Rightarrow> nat \<Rightarrow> ('w, bool) remote_op" where
  "wait_for predicate 0 cl = predicate cl"
| "wait_for predicate (Suc polls) cl =
     (case predicate cl of
        (Inr False, cl') \<Rightarrow> wait_for predicate polls cl'
      | r \<Rightarrow> r)"

text \<open>\<^verbatim>\<open>Object.wait_for_properties\<close> and its inner \<^verbatim>\<open>check_props\<close>; \<open>props_match\<close>
  is the loop over \<^verbatim>\<open>props.items()\<close>.\<close>

fun props_match :: "json \<Rightarrow> dict \<Rightarrow> error + bool" where
  "props_match properties [] = Inr True"
| "props_match properties ((k, v) # rest) =
     (case py_get properties k of
        Inl e \<Rightarrow> Inl e
      | Inr x \<Rightarrow> if \<not> py_eq x v then Inr False else props_match properties rest)"

definition check_props :: "'w server \<Rightarrow> 'c obj \<Rightarrow> dict \<Rightarrow> ('w, bool) remote_op" where
  "check_props srv self props =
     op_bind (Properties_call srv self) (\<lambda>properties. op_lift (props_match properties props))"

definition wait_for_properties :: "'w server \<Rightarrow> 'c obj \<Rightarrow> dict \<Rightarrow> nat \<Rightarrow> ('w, bool) remote_op" where
  "wait_for_properties srv self props polls = wait_for (check_props srv self props) polls"

section \<open>Click operations\<close>

text \<open>The \<^verbatim>\<open>if btn == 'left' ... elif ... else raise\<close> chain shared by \<^verbatim>\<open>Widget.click\<close>,
  \<^verbatim>\<open>AbstractItemView.click_item\<close> and \<^verbatim>\<open>GItem.click\<close>: the action name, or
  \<open>None\<close> where the chain reaches \<^verbatim>\<open>raise ValueError\<close>.\<close>

definition mouse_action :: "string \<Rightarrow> string option" where
  "mouse_action btn =
     (if btn = ''left'' then Some ''click''
      else if btn = ''right'' then Some ''rightclick''
      else if btn = ''middle'' then Some ''middleclick''
      else None)"

definition invalid_button :: "string \<Rightarrow> error" where
  "invalid_button btn = ValueError (''Invalid mouse button: '' @ btn)"

definition Widget_click ::
  "'w server \<Rightarrow> nat \<Rightarrow> 'c obj \<Rightarrow> real \<Rightarrow> string \<Rightarrow> ('w, unit) remote_op" where
  "Widget_click srv polls self wait_for_enabled btn =
     op_bind
       (if 0 < wait_for_enabled
        then op_bind
               (wait_for_properties srv self
                  [(''enabled'', JBool True), (''visible'', JBool True)] polls)
               (\<lambda>waited. op_lift (Inr ()))
        else op_lift (Inr ()))
       (\<lambda>u. case mouse_action btn of
               None \<Rightarrow> op_lift (Inl (invalid_button btn))
             | Some action \<Rightarrow>
                 op_bind
                   (send_command srv ''widget_click''
                      [(''oid'', oid_of self), (''mouseAction'', JStr action)])
                   (\<lambda>reply. op_lift (Inr ())))"

definition json_of_text :: "string option \<Rightarrow> json" where
  "json_of_text t = (case t of None \<Rightarrow> JNull | Some s \<Rightarrow> JStr s)"

definition item_action ::
  "'w server \<Rightarrow> 'c obj \<Rightarrow> ModelItem \<Rightarrow> string \<Rightarrow> json \<Rightarrow> json \<Rightarrow> json \<Rightarrow> ('w, unit) remote_op" where
  "item_action srv self item itemaction origin offset_x offset_y =
     op_bind
       (send_command srv ''model_item_action''
          [(''oid'', oid_of self), (''itemaction'', JStr itemaction),
           (''row'', JNum (real (row (attrs item)))),
           (''column'', JNum (real (column (attrs item)))),
           (''origin'', origin), (''offset_x'', offset_x), (''offset_y'', offset_y),
           (''itempath'', json_of_text (itempath (attrs item)))])
       (\<lambda>reply. op_lift (Inr ()))"

definition click_item ::
  "'w server \<Rightarrow> 'c obj \<Rightarrow> ModelItem \<Rightarrow> json \<Rightarrow> json \<Rightarrow> json \<Rightarrow> string \<Rightarrow> ('w, unit) remote_op" where
  "click_item srv self item origin offset_x offset_y btn =
     (case mouse_action btn of
        None \<Rightarrow> op_lift (Inl (invalid_button btn))
      | Some action \<Rightarrow> item_action srv self item action origin offset_x offset_y)"

text \<open>A \<^verbatim>\<open>GItem\<close> is a \<^verbatim>\<open>TreeItem\<close> with the attributes of its descriptor;
  \<^verbatim>\<open>viewid\<close> and \<^verbatim>\<open>gid\<close> default to \<^verbatim>\<open>None\<close>.\<close>

type_synonym GItem = "dict tree_item"

definition GItem_action :: "'w server \<Rightarrow> GItem \<Rightarrow> string \<Rightarrow> ('w, unit) remote_op" where
  "GItem_action srv self itemaction =
     op_bind
       (send_command srv ''model_gitem_action''
          [(''oid'', getattr_default (attrs self) ''viewid''),
           (''itemaction'', JStr itemaction),
           (''gid'', getattr_default (attrs self) ''gid'')])
       (\<lambda>reply. op_lift (Inr ()))"

definition GItem_click :: "'w server \<Rightarrow> GItem \<Rightarrow> string \<Rightarrow> ('w, unit) remote_op" where
  "GItem_click srv self btn =
     (case mouse_action btn of
        None \<Rightarrow> op_lift (Inl (invalid_button btn))
      | Some action \<Rightarrow> GItem_action srv self action)"

section \<open>ComboBox.set_current_text\<close>

text \<open>\<^verbatim>\<open>ComboBox.model\<close> builds an \<^verbatim>\<open>AbstractItemModel\<close> through the metaclass;
  \<^verbatim>\<open>items\<close> is a method of \<^verbatim>\<open>AbstractItemModel\<close> only.\<close>

definition ComboBox_model :: "'w server \<Rightarrow> widget_class obj \<Rightarrow> ('w, widget_class obj) remote_op" where
  "ComboBox_model srv self =
     op_bind (send_command srv ''model'' [(''oid'', oid_of self)])
       (\<lambda>data. op_lift (call_meta cpp_classes AbstractItemModel data))"

definition AbstractItemModel_items ::
  "'w server \<Rightarrow> widget_class obj \<Rightarrow> ('w, ModelItem list) remote_op" where
  "AbstractItemModel_items srv self cl =
     (if obj_class self = AbstractItemModel
      then (case answer_items srv (remote cl) (Command ''model_items'' [(''oid'', oid_of self)]) of
              (r, w) \<Rightarrow>
                (r, \<lparr>remote = w,
                     sent = sent cl @ [Command ''model_items'' [(''oid'', oid_of self)]]\<rparr>))
      else (Inl (AttributeError ''items''), cl))"

text \<open>The search loop of \<^verbatim>\<open>set_current_text\<close> over the iteration of the model items:
  \<^verbatim>\<open>index\<close> starts at \<open>-1\<close> and the first match sets it and breaks.\<close>

fun text_index :: "json \<Rightarrow> string \<Rightarrow> ModelItem list \<Rightarrow> int" where
  "text_index col text [] = - 1"
| "text_index col text (item # rest) =
     (if py_eq col (JNum (real (column (attrs item)))) \<and> item_value (attrs item) = text
      then int (row (attrs item))
      else text_index col text rest)"

definition not_in_combobox :: "(json \<Rightarrow> string) \<Rightarrow> string \<Rightarrow> json \<Rightarrow> string" where
  "not_in_combobox render text path =
     ''The text `'' @ text @ ''` is not in the combobox `'' @ py_format render path @ ''`''"

definition set_current_text ::
  "'w server \<Rightarrow> (json \<Rightarrow> string) \<Rightarrow> widget_class obj \<Rightarrow> string \<Rightarrow> ('w, unit) remote_op" where
  "set_current_text srv render self text =
     op_bind (Properties_getitem srv self ''modelColumn'') (\<lambda>col.
     op_bind (ComboBox_model srv self) (\<lambda>mdl.
     op_bind (AbstractItemModel_items srv mdl) (\<lambda>its.
       if - 1 < text_index col text (TreeItems_iter its)
       then set_property srv self ''currentIndex''
              (JNum (real_of_int (text_index col text (TreeItems_iter its))))
       else op_lift (Inl (AssertionError (not_in_combobox render text (path_of self)))))))"

section \<open>Example data\<close>

text \<open>Small concrete inputs on which the theorems below are exercised.\<close>

definition example_tree :: "nat tree_item list" where
  "example_tree = [TreeItem 1 [TreeItem 2 [], TreeItem 3 []], TreeItem 4 []]"

definition example_item :: "nat \<Rightarrow> nat \<Rightarrow> string \<Rightarrow> ModelItem list \<Rightarrow> ModelItem" where
  "example_item r c v cs =
     TreeItem \<lparr>modelid = 1, row = r, column = c, item_value = v,
               check_state = None, itempath = None\<rparr> cs"

definition table_view_descriptor :: dict where
  "table_view_descriptor =
     [(''oid'', JNum 12), (''path'', JStr ''mainwindow::view''),
      (''classes'', JArr [JStr ''QTableView'', JStr ''QAbstractItemView'', JStr ''QWidget''])]"

text \<open>The tree of the spec's named-path scenarios, and two trees with a repeated name.\<close>

definition scenario_tree :: "ModelItem list" where
  "scenario_tree =
     [example_item 0 0 ''A'' [example_item 0 0 ''B'' [], example_item 0 1 ''X'' []]]"

definition dup_tree :: "ModelItem list" where
  "dup_tree = [example_item 0 0 ''A'' [example_item 0 0 ''B'' []], example_item 1 0 ''A'' []]"

definition tie_tree :: "ModelItem list" where
  "tie_tree =
     [example_item 0 0 ''A'' [example_item 0 0 ''X'' []],
      example_item 1 0 ''A'' [example_item 0 0 ''Y'' []]]"

text \<open>A remote side that stores properties and echoes them back, and one that serves a
  combobox with the items \<^verbatim>\<open>Red\<close> and \<^verbatim>\<open>Blue\<close>.\<close>

definition echo_server :: "dict server" where
  "echo_server =
     \<lparr>answer = (\<lambda>w cmd.
        if cmd_name cmd = ''object_properties'' then (Inr (JObj w), w)
        else if cmd_name cmd = ''object_set_properties''
        then (case map_of (cmd_args cmd) ''properties'' of
                Some (JObj ps) \<Rightarrow> (Inr JNull, ps @ w)
              | _ \<Rightarrow> (Inl (RemoteError ''bad request''), w))
        else (Inr JNull, w)),
      answer_items = (\<lambda>w cmd. (Inr [], w))\<rparr>"

definition combo_items :: "ModelItem list" where
  "combo_items = [example_item 0 0 ''Red'' [], example_item 1 0 ''Blue'' []]"

definition combo_server :: "unit server" where
  "combo_server =
     \<lparr>answer = (\<lambda>w cmd.
        if cmd_name cmd = ''object_properties''
        then (Inr (JObj [(''enabled'', JBool True), (''visible'', JBool True),
                          (''modelColumn'', JNum 0)]), w)
        else if cmd_name cmd = ''model''
        then (Inr (JObj [(''oid'', JNum 8),
                          (''classes'', JArr [JStr ''QStandardItemModel'', JStr ''QObject''])]), w)
        else (Inr JNull, w)),
      answer_items = (\<lambda>w cmd. (Inr combo_items, w))\<rparr>"

definition combo_box :: "widget_class obj" where
  "combo_box = Object_init ComboBox [(''oid'', JNum 7), (''path'', JStr ''dialog::colour'')]"

chapter \<open>Verification\<close>

section \<open>Iteration over a tree collection\<close>

text \<open>Positions are compared lexicographically, a position coming before each of its
  extensions: the order in which a depth-first pre-order walk meets them.\<close>

abbreviation before :: "nat list \<Rightarrow> nat list \<Rightarrow> bool" where
  "before p q \<equiv> (p, q) \<in> lexord {(a, b). a < b}"

lemma before_trans: "before p q \<Longrightarrow> before q r \<Longrightarrow> before p r"
  by (rule lexord_trans) (auto simp: trans_def)

lemma before_irrefl: "\<not> before p p"
  by (rule lexord_irreflexive) simp

lemma before_prefix: "strict_prefix p q \<Longrightarrow> before p q"
proof -
  assume "strict_prefix p q"
  then obtain z where "q = p @ z" "z \<noteq> []" by (auto simp: strict_prefix_def prefix_def)
  then show ?thesis by (cases z) (simp_all add: lexord_append_rightI)
qed

lemma before_sibling: "a < b \<Longrightarrow> before (p @ a # r) (p @ b # s)"
  by (simp add: lexord_append_leftI)

lemma iter_pos_snd: "map snd (iter_pos pre k xs) = TreeItems_iter xs"
  by (induction pre k xs rule: iter_pos.induct) auto

lemma length_TreeItems_iter: "length (TreeItems_iter xs) = sum_list (map tree_size xs)"
  by (induction xs rule: TreeItems_iter.induct) auto

lemma node_at_Nil: "node_at [] p = None"
proof (cases p)
  case Nil
  then show ?thesis by simp
next
  case (Cons i r)
  then show ?thesis by (cases r) simp_all
qed

lemma node_at_Cons_Suc: "node_at (x # xs) (Suc i # r) = node_at xs (i # r)"
  by (cases r) auto

lemma iter_pos_mem:
  "(p, n) \<in> set (iter_pos pre k xs) \<longleftrightarrow>
     (\<exists>i r. p = pre @ (k + i) # r \<and> node_at xs (i # r) = Some n)"
proof (induction pre k xs arbitrary: p n rule: iter_pos.induct)
  case (1 pre k)
  show ?case by (simp add: node_at_Nil)
next
  case (2 pre k a cs rest)
  show ?case (is "?L = ?R")
  proof
    assume ?L
    then consider "p = pre @ [k]" "n = TreeItem a cs"
      | "(p, n) \<in> set (iter_pos (pre @ [k]) 0 cs)"
      | "(p, n) \<in> set (iter_pos pre (Suc k) rest)" by auto
    then show ?R
    proof cases
      case 1
      then have "p = pre @ (k + 0) # [] \<and> node_at (TreeItem a cs # rest) (0 # []) = Some n"
        by simp
      then show ?thesis by blast
    next
      case 2
      then obtain i r where "p = (pre @ [k]) @ (0 + i) # r" "node_at cs (i # r) = Some n"
        using "2.IH"(1) by blast
      then have "p = pre @ (k + 0) # (i # r)
          \<and> node_at (TreeItem a cs # rest) (0 # i # r) = Some n"
        by simp
      then show ?thesis by blast
    next
      case 3
      then obtain i r where "p = pre @ (Suc k + i) # r" "node_at rest (i # r) = Some n"
        using "2.IH"(2) by blast
      then have "p = pre @ (k + Suc i) # r
          \<and> node_at (TreeItem a cs # rest) (Suc i # r) = Some n"
        by (simp add: node_at_Cons_Suc)
      then show ?thesis by blast
    qed
  next
    assume ?R
    then obtain i r
      where ir: "p = pre @ (k + i) # r" "node_at (TreeItem a cs # rest) (i # r) = Some n"
      by blast
    show ?L
    proof (cases i)
      case 0
      show ?thesis
      proof (cases r)
        case Nil
        with 0 ir have "p = pre @ [k]" "n = TreeItem a cs" by simp_all
        then show ?thesis unfolding \<open>p = pre @ [k]\<close> \<open>n = TreeItem a cs\<close> by simp
      next
        case (Cons j q)
        with 0 ir have "p = (pre @ [k]) @ (0 + j) # q" "node_at cs (j # q) = Some n"
          by simp_all
        then have "(p, n) \<in> set (iter_pos (pre @ [k]) 0 cs)" using "2.IH"(1) by blast
        then show ?thesis by simp
      qed
    next
      case (Suc i')
      with ir have "p = pre @ (Suc k + i') # r" "node_at rest (i' # r) = Some n"
        by (simp_all add: node_at_Cons_Suc)
      then have "(p, n) \<in> set (iter_pos pre (Suc k) rest)" using "2.IH"(2) by blast
      then show ?thesis by simp
    qed
  qed
qed

lemma iter_pos_fst:
  "p \<in> fst ` set (iter_pos pre k xs) \<Longrightarrow> \<exists>i r. p = pre @ (k + i) # r"
proof -
  assume "p \<in> fst ` set (iter_pos pre k xs)"
  then obtain n where "(p, n) \<in> set (iter_pos pre k xs)" by auto
  then obtain i r where "p = pre @ (k + i) # r" "node_at xs (i # r) = Some n"
    unfolding iter_pos_mem by blast
  then show ?thesis by blast
qed

lemma iter_pos_sorted: "sorted_wrt before (map fst (iter_pos pre k xs))"
proof (induction pre k xs rule: iter_pos.induct)
  case (1 pre k)
  show ?case by simp
next
  case (2 pre k a cs rest)
  have sub: "before (pre @ [k]) q" if "q \<in> fst ` set (iter_pos (pre @ [k]) 0 cs)" for q
  proof -
    from iter_pos_fst [OF that] obtain i r where "q = (pre @ [k]) @ (0 + i) # r" by blast
    then show ?thesis by (simp add: lexord_append_leftI)
  qed
  have sib: "before (pre @ k # s) q" if "q \<in> fst ` set (iter_pos pre (Suc k) rest)" for q s
  proof -
    from iter_pos_fst [OF that] obtain i r where "q = pre @ (Suc k + i) # r" by blast
    then show ?thesis by (simp add: before_sibling)
  qed
  have cross: "before p q"
    if "p \<in> fst ` set (iter_pos (pre @ [k]) 0 cs)"
      and "q \<in> fst ` set (iter_pos pre (Suc k) rest)" for p q
  proof -
    from iter_pos_fst [OF that(1)] obtain i r where "p = (pre @ [k]) @ (0 + i) # r" by blast
    then have "p = pre @ k # i # r" by simp
    with sib [OF that(2)] show ?thesis by simp
  qed
  let ?A = "map fst (iter_pos (pre @ [k]) 0 cs)"
  let ?B = "map fst (iter_pos pre (Suc k) rest)"
  have first: "\<forall>y \<in> set (?A @ ?B). before (pre @ [k]) y"
  proof
    fix y assume "y \<in> set (?A @ ?B)"
    then consider "y \<in> fst ` set (iter_pos (pre @ [k]) 0 cs)"
      | "y \<in> fst ` set (iter_pos pre (Suc k) rest)" by auto
    then show "before (pre @ [k]) y"
    proof cases
      case 1 then show ?thesis by (rule sub)
    next
      case 2 then show ?thesis by (rule sib)
    qed
  qed
  have "\<forall>x \<in> set ?A. \<forall>y \<in> set ?B. before x y"
    using cross by simp
  with "2.IH" have "sorted_wrt before (?A @ ?B)"
    by (simp only: sorted_wrt_append simp_thms)
  with first have "sorted_wrt before ((pre @ [k]) # ?A @ ?B)"
    by (simp only: sorted_wrt.simps simp_thms)
  then show ?case by simp
qed

lemma sorted_wrt_before_index:
  assumes "sorted_wrt before ps" "i < length ps" "j < length ps" "before (ps ! i) (ps ! j)"
  shows "i < j"
proof (rule ccontr)
  assume "\<not> i < j"
  then consider "i = j" | "j < i" by linarith
  then show False
  proof cases
    case 1
    with assms(4) before_irrefl show False by simp
  next
    case 2
    have "before (ps ! j) (ps ! i)" by (rule sorted_wrt_nth_less [OF assms(1) 2 assms(2)])
    with assms(4) before_trans before_irrefl show False by blast
  qed
qed

lemma sorted_wrt_before_distinct: "sorted_wrt before ps \<Longrightarrow> distinct ps"
  by (induction ps) (auto simp: before_irrefl)

text \<open>
  C3. Iterating a tree collection yields the nodes in depth-first pre-order, each exactly
  once. With every yielded node labelled by its position: the labelled run is the
  iteration itself; a labelled pair occurs in it exactly when the node stands at that
  position of the tree, and no position occurs twice; the number of yielded nodes is the
  number of nodes of the tree; a node comes before each of its descendants; and every node
  of the subtree of a node comes before each later sibling of that node. The iteration
  is a function of the tree alone and returns no changed tree, so iterating again yields
  the same sequence.
\<close>

theorem TreeItems_iter_preorder:
  "map snd (iter_pos [] 0 xs) = TreeItems_iter xs
   \<and> (\<forall>p n. (p, n) \<in> set (iter_pos [] 0 xs) \<longleftrightarrow> node_at xs p = Some n)
   \<and> distinct (map fst (iter_pos [] 0 xs))
   \<and> length (TreeItems_iter xs) = sum_list (map tree_size xs)
   \<and> (\<forall>i j. i < length (iter_pos [] 0 xs) \<and> j < length (iter_pos [] 0 xs)
          \<and> strict_prefix (fst (iter_pos [] 0 xs ! i)) (fst (iter_pos [] 0 xs ! j))
        \<longrightarrow> i < j)
   \<and> (\<forall>i j p a b r. i < length (iter_pos [] 0 xs) \<and> j < length (iter_pos [] 0 xs)
          \<and> fst (iter_pos [] 0 xs ! i) = p @ a # r \<and> fst (iter_pos [] 0 xs ! j) = p @ [b]
          \<and> a < b
        \<longrightarrow> i < j)"
proof -
  let ?ps = "map fst (iter_pos [] 0 xs)"
  have sorted: "sorted_wrt before ?ps" by (rule iter_pos_sorted)
  have mem: "(p, n) \<in> set (iter_pos [] 0 xs) \<longleftrightarrow> node_at xs p = Some n" for p n
  proof (cases p)
    case Nil
    then show ?thesis by (simp add: iter_pos_mem)
  next
    case (Cons i r)
    then show ?thesis by (simp add: iter_pos_mem)
  qed
  have anc: "i < j"
    if "i < length (iter_pos [] 0 xs)" "j < length (iter_pos [] 0 xs)"
      and "strict_prefix (fst (iter_pos [] 0 xs ! i)) (fst (iter_pos [] 0 xs ! j))" for i j
  proof -
    from that have b: "before (?ps ! i) (?ps ! j)" by (simp add: before_prefix)
    from that(1,2) have l: "i < length ?ps" "j < length ?ps" by simp_all
    show ?thesis by (rule sorted_wrt_before_index [OF sorted l b])
  qed
  have sib: "i < j"
    if "i < length (iter_pos [] 0 xs)" "j < length (iter_pos [] 0 xs)"
      and "fst (iter_pos [] 0 xs ! i) = p @ a # r" "fst (iter_pos [] 0 xs ! j) = p @ [b]"
      and "a < b" for i j p a b r
  proof -
    from that have b: "before (?ps ! i) (?ps ! j)" by (simp add: before_sibling)
    from that(1,2) have l: "i < length ?ps" "j < length ?ps" by simp_all
    show ?thesis by (rule sorted_wrt_before_index [OF sorted l b])
  qed
  from sorted have "distinct ?ps" by (rule sorted_wrt_before_distinct)
  have A: "map snd (iter_pos [] 0 xs) = TreeItems_iter xs" by (rule iter_pos_snd)
  have B: "length (TreeItems_iter xs) = sum_list (map tree_size xs)" by (rule length_TreeItems_iter)
  from mem have C: "\<forall>p n. (p, n) \<in> set (iter_pos [] 0 xs) \<longleftrightarrow> node_at xs p = Some n" by blast
  from anc have D: "\<forall>i j. i < length (iter_pos [] 0 xs) \<and> j < length (iter_pos [] 0 xs)
          \<and> strict_prefix (fst (iter_pos [] 0 xs ! i)) (fst (iter_pos [] 0 xs ! j))
        \<longrightarrow> i < j" by blast
  from sib have E: "\<forall>i j p a b r. i < length (iter_pos [] 0 xs) \<and> j < length (iter_pos [] 0 xs)
          \<and> fst (iter_pos [] 0 xs ! i) = p @ a # r \<and> fst (iter_pos [] 0 xs ! j) = p @ [b]
          \<and> a < b
        \<longrightarrow> i < j" by blast
  from A C \<open>distinct ?ps\<close> B D E show ?thesis by (intro conjI)
qed

theorem TreeItems_iter_preorder_witness:
  "TreeItems_iter example_tree
     = [TreeItem 1 [TreeItem 2 [], TreeItem 3 []], TreeItem 2 [], TreeItem 3 [], TreeItem 4 []]
   \<and> map fst (iter_pos [] 0 example_tree) = [[0], [0, 0], [0, 1], [1]]
   \<and> node_at example_tree [0, 1] = Some (TreeItem 3 [])
   \<and> length (TreeItems_iter example_tree) = 4
   \<and> strict_prefix (fst (iter_pos [] 0 example_tree ! 0)) (fst (iter_pos [] 0 example_tree ! 2))
   \<and> fst (iter_pos [] 0 example_tree ! 2) = [] @ 0 # [1]
   \<and> fst (iter_pos [] 0 example_tree ! 3) = [] @ [1]"
proof -
  note T = TreeItems_iter_preorder [of example_tree]
  have pos: "iter_pos [] 0 example_tree
     = [([0], TreeItem 1 [TreeItem 2 [], TreeItem 3 []]), ([0, 0], TreeItem 2 []),
        ([0, 1], TreeItem 3 []), ([1], TreeItem 4 [])]"
    by (simp add: example_tree_def)
  have it: "TreeItems_iter example_tree = map snd (iter_pos [] 0 example_tree)"
    by (rule T [THEN conjunct1, symmetric])
  have "([0, 1], TreeItem 3 []) \<in> set (iter_pos [] 0 example_tree)
      \<longleftrightarrow> node_at example_tree [0, 1] = Some (TreeItem 3 [])"
    by (rule T [THEN conjunct2, THEN conjunct1, rule_format])
  then have nd: "node_at example_tree [0, 1] = Some (TreeItem 3 [])"
    unfolding pos by simp
  have len: "length (TreeItems_iter example_tree) = sum_list (map tree_size example_tree)"
    by (rule T [THEN conjunct2, THEN conjunct2, THEN conjunct2, THEN conjunct1])
  have sz: "sum_list (map tree_size example_tree) = 4"
    by (simp add: example_tree_def)
  show ?thesis
    unfolding len sz nd unfolding it pos by simp
qed

section \<open>Construction from descriptors\<close>

lemma filter_absent_key: "map_of kvs k = None \<Longrightarrow> filter (\<lambda>kv. fst kv \<noteq> k) kvs = kvs"
  by (induction kvs) (auto split: if_splits)

text \<open>
  C9, as amended. For a descriptor without the key \<^verbatim>\<open>items\<close>, building a tree item
  succeeds and the item has no sub-items and keeps every attribute, while building a
  tree collection raises \<^verbatim>\<open>KeyError('items')\<close>: the collection reads
  \<^verbatim>\<open>data['items']\<close>, the item reads \<^verbatim>\<open>getattr(self, 'items', [])\<close>.
\<close>

theorem TreeItem_init_children_absent:
  "map_of kvs ''items'' = None \<Longrightarrow>
     TreeItem_init (JObj kvs) = Inr (TreeItem kvs [])
     \<and> TreeItems_init (JObj kvs) = Inl (KeyError ''items'')"
  by (simp add: TreeItem_init.simps [of "JObj kvs"] TreeItems_init_def filter_absent_key)

theorem TreeItem_init_children_absent_witness:
  "map_of [(''row'', JNum 0), (''column'', JNum 0)] ''items'' = None
   \<and> TreeItem_init (JObj [(''row'', JNum 0), (''column'', JNum 0)])
       = Inr (TreeItem [(''row'', JNum 0), (''column'', JNum 0)] [])
   \<and> items (TreeItem [(''row'', JNum 0), (''column'', JNum (0::real))] []) = []
   \<and> TreeItems_init (JObj [(''row'', JNum 0), (''column'', JNum 0)]) = Inl (KeyError ''items'')"
proof -
  have absent: "map_of [(''row'', JNum 0), (''column'', JNum 0)] ''items'' = None" by simp
  from TreeItem_init_children_absent [OF absent] absent show ?thesis by simp
qed

text \<open>The claim as stated fails for the collection: a top-level descriptor without
  \<^verbatim>\<open>items\<close> does not give the empty collection.\<close>

theorem TreeItems_init_children_absent_counterexample:
  "map_of [(''oid'', JNum 1)] ''items'' = None
   \<and> TreeItems_init (JObj [(''oid'', JNum 1)]) = Inl (KeyError ''items'')
   \<and> TreeItems_init (JObj [(''oid'', JNum 1)]) \<noteq> Inr []"
  by (simp add: TreeItems_init_def)

section \<open>Class dispatch\<close>

lemma cpp_classes_eq:
  "cpp_classes =
     [''QAbstractItemView'' \<mapsto> AbstractItemView, ''QTableView'' \<mapsto> TableView,
      ''QTreeView'' \<mapsto> TreeView, ''QTabBar'' \<mapsto> TabBar, ''QGraphicsView'' \<mapsto> GraphicsView,
      ''QComboBox'' \<mapsto> ComboBox, ''QHeaderView'' \<mapsto> HeaderView, ''QQuickItem'' \<mapsto> QuickItem,
      ''QQuickWindow'' \<mapsto> QuickWindow]"
  by (simp add: cpp_classes_def class_statements_def register_def)

lemma walk_chain_names:
  "walk_chain reg cls (map JStr names) =
     (case find (\<lambda>n. reg n \<noteq> None) names of
        None \<Rightarrow> Direct
      | Some n \<Rightarrow> if reg n = Some cls then Direct else Dispatch (the (reg n)))"
  by (induction names) (auto split: option.splits)

lemma class_chain_names:
  "map_of kvs ''classes'' = Some (JArr (map JStr names)) \<Longrightarrow>
     class_chain (JObj kvs) = Inr (map JStr names)"
  by (simp add: class_chain_def)

lemma call_meta_Direct:
  "class_chain (JObj kvs) = Inr chain \<Longrightarrow> walk_chain reg cls chain = Direct \<Longrightarrow>
     call_meta reg cls (JObj kvs) = Inr (Object_init cls kvs)"
  by (subst call_meta.simps) simp

lemma call_meta_Dispatch:
  "class_chain data = Inr chain \<Longrightarrow> walk_chain reg cls chain = Dispatch c \<Longrightarrow>
     call_meta reg cls data = call_meta reg c data"
  by (subst call_meta.simps) simp

lemma call_meta_first_hit:
  assumes "map_of kvs ''classes'' = Some (JArr (map JStr names))"
    and "find (\<lambda>n. reg n \<noteq> None) names = Some n" and "reg n = Some c"
  shows "call_meta reg cls (JObj kvs) = Inr (Object_init c kvs)"
proof -
  note chain = class_chain_names [OF assms(1)]
  have "walk_chain reg c (map JStr names) = Direct"
    using assms(2,3) by (simp add: walk_chain_names)
  with chain have direct: "call_meta reg c (JObj kvs) = Inr (Object_init c kvs)"
    by (rule call_meta_Direct)
  show ?thesis
  proof (cases "c = cls")
    case True
    with direct show ?thesis by simp
  next
    case False
    with assms(2,3) have "walk_chain reg cls (map JStr names) = Dispatch c"
      by (simp add: walk_chain_names)
    with chain have "call_meta reg cls (JObj kvs) = call_meta reg c (JObj kvs)"
      by (rule call_meta_Dispatch)
    with direct show ?thesis by simp
  qed
qed

lemma find_weaken:
  "find P xs = Some x \<Longrightarrow> (\<And>y. P y \<Longrightarrow> Q y) \<Longrightarrow> \<exists>z. find Q xs = Some z \<and> Q z"
  by (induction xs) (auto split: if_splits)

text \<open>
  C1. For a descriptor whose \<^verbatim>\<open>classes\<close> field is a list of names: if the first name of
  the chain that is registered maps to a class other than the requested one, the walk
  ends by calling that class on the same descriptor, and the result is an instance of
  that class; the same equation holds for the first name registered to a class other
  than the requested one; and whichever class is requested, the result is an instance of
  the class registered for the first registered name of the chain.
\<close>

theorem call_meta_most_derived:
  assumes "map_of kvs ''classes'' = Some (JArr (map JStr names))"
  shows "(find (\<lambda>n. reg n \<noteq> None) names = Some n \<and> reg n = Some c \<and> c \<noteq> cls \<longrightarrow>
            walk_chain reg cls (map JStr names) = Dispatch c
            \<and> call_meta reg cls (JObj kvs) = call_meta reg c (JObj kvs)
            \<and> call_meta reg c (JObj kvs) = Inr (Object_init c kvs))
       \<and> (find (\<lambda>n. \<exists>c'. reg n = Some c' \<and> c' \<noteq> cls) names = Some m \<and> reg m = Some d \<longrightarrow>
            call_meta reg cls (JObj kvs) = call_meta reg d (JObj kvs))
       \<and> (find (\<lambda>n. reg n \<noteq> None) names = Some n \<and> reg n = Some c \<longrightarrow>
            call_meta reg cls (JObj kvs) = Inr (Object_init c kvs))"
proof (intro conjI impI)
  assume h: "find (\<lambda>n. reg n \<noteq> None) names = Some n \<and> reg n = Some c \<and> c \<noteq> cls"
  then show "walk_chain reg cls (map JStr names) = Dispatch c"
    by (simp add: walk_chain_names)
  from h have "call_meta reg cls (JObj kvs) = Inr (Object_init c kvs)"
    and "call_meta reg c (JObj kvs) = Inr (Object_init c kvs)"
    by (simp_all add: call_meta_first_hit [OF assms])
  then show "call_meta reg cls (JObj kvs) = call_meta reg c (JObj kvs)"
    and "call_meta reg c (JObj kvs) = Inr (Object_init c kvs)" by simp_all
next
  assume "find (\<lambda>n. \<exists>c'. reg n = Some c' \<and> c' \<noteq> cls) names = Some m \<and> reg m = Some d"
  then have "\<exists>z. find (\<lambda>n. reg n \<noteq> None) names = Some z \<and> reg z \<noteq> None"
    by (intro find_weaken [of "\<lambda>n. \<exists>c'. reg n = Some c' \<and> c' \<noteq> cls" names m]) auto
  then obtain z c0 where "find (\<lambda>n. reg n \<noteq> None) names = Some z" "reg z = Some c0" by auto
  then have "call_meta reg cls (JObj kvs) = Inr (Object_init c0 kvs)"
    and "call_meta reg d (JObj kvs) = Inr (Object_init c0 kvs)"
    by (rule call_meta_first_hit [OF assms])+
  then show "call_meta reg cls (JObj kvs) = call_meta reg d (JObj kvs)" by simp
next
  assume "find (\<lambda>n. reg n \<noteq> None) names = Some n \<and> reg n = Some c"
  then show "call_meta reg cls (JObj kvs) = Inr (Object_init c kvs)"
    by (simp add: call_meta_first_hit [OF assms])
qed

theorem call_meta_most_derived_witness:
  "cpp_classes ''QTableView'' = Some TableView
   \<and> cpp_classes ''QAbstractItemView'' = Some AbstractItemView
   \<and> call_meta cpp_classes Widget (JObj table_view_descriptor)
       = Inr (Object_init TableView table_view_descriptor)
   \<and> call_meta cpp_classes Widget (JObj table_view_descriptor)
       = call_meta cpp_classes TableView (JObj table_view_descriptor)"
proof -
  have chain: "map_of table_view_descriptor ''classes''
      = Some (JArr (map JStr [''QTableView'', ''QAbstractItemView'', ''QWidget'']))"
    by (simp add: table_view_descriptor_def)
  have hit: "find (\<lambda>n. cpp_classes n \<noteq> None) [''QTableView'', ''QAbstractItemView'', ''QWidget'']
      = Some ''QTableView''"
    by (simp add: cpp_classes_eq)
  have reg: "cpp_classes ''QTableView'' = Some TableView"
    "cpp_classes ''QAbstractItemView'' = Some AbstractItemView"
    by (simp_all add: cpp_classes_eq)
  from call_meta_most_derived [OF chain, of cpp_classes "''QTableView''" TableView Widget] hit reg
  show ?thesis by simp
qed

text \<open>
  C4. For a descriptor whose \<^verbatim>\<open>classes\<close> field is a list of names: if the first
  registered name of the chain maps to the requested class itself, the walk stops
  without calling any registered class (there is no recursive call), and the result is
  an instance of the requested class built directly from the descriptor.
\<close>

theorem call_meta_self_identity:
  assumes "map_of kvs ''classes'' = Some (JArr (map JStr names))"
    and "find (\<lambda>n. reg n \<noteq> None) names = Some n" and "reg n = Some cls"
  shows "walk_chain reg cls (map JStr names) = Direct
       \<and> dispatch_depth reg cls (JObj kvs) = 0
       \<and> call_meta reg cls (JObj kvs) = Inr (Object_init cls kvs)
       \<and> obj_class (Object_init cls kvs) = cls"
proof -
  have direct: "walk_chain reg cls (map JStr names) = Direct"
    using assms(2,3) by (simp add: walk_chain_names)
  moreover note chain = class_chain_names [OF assms(1)]
  from chain direct have "dispatch_depth reg cls (JObj kvs) = 0"
    by (simp add: dispatch_depth_def)
  moreover from chain direct have "call_meta reg cls (JObj kvs) = Inr (Object_init cls kvs)"
    by (rule call_meta_Direct)
  ultimately show ?thesis by (simp add: Object_init_def)
qed

theorem call_meta_self_identity_witness:
  "cpp_classes ''QTableView'' = Some TableView
   \<and> walk_chain cpp_classes TableView
       (map JStr [''QTableView'', ''QAbstractItemView'', ''QWidget'']) = Direct
   \<and> call_meta cpp_classes TableView (JObj table_view_descriptor)
       = Inr (Object_init TableView table_view_descriptor)"
proof -
  have chain: "map_of table_view_descriptor ''classes''
      = Some (JArr (map JStr [''QTableView'', ''QAbstractItemView'', ''QWidget'']))"
    by (simp add: table_view_descriptor_def)
  have hit: "find (\<lambda>n. cpp_classes n \<noteq> None) [''QTableView'', ''QAbstractItemView'', ''QWidget'']
      = Some ''QTableView''"
    by (simp add: cpp_classes_eq)
  have reg: "cpp_classes ''QTableView'' = Some TableView"
    by (simp add: cpp_classes_eq)
  from call_meta_self_identity [OF chain hit reg] reg show ?thesis by simp
qed

section \<open>The named-path resolver\<close>

lemma scan_level_Cons:
  "scan_level mc part is_last level (item # rest) nxt =
     (if matches mc part item
      then (if is_last then Return (full_row level item)
            else scan_level mc part is_last level rest (Some item))
      else scan_level mc part is_last level rest nxt)"
  by (simp add: matches_def full_row_def)

lemma scan_level_last:
  "scan_level mc part True level xs nxt =
     (case find (matches mc part) xs of
        None \<Rightarrow> Next nxt
      | Some item \<Rightarrow> Return (full_row level item))"
  by (induction xs arbitrary: nxt) (simp_all add: scan_level_Cons del: scan_level.simps(2))

text \<open>On a path of one part the loop returns at the first matching item, as
  \<open>resolve_first\<close> does; and it resolves the two named-path scenarios of the spec.\<close>

lemma row_by_named_path_single_part:
  "row_by_named_path self (PathList [part]) mc sep = Inr (resolve_first mc self [part])"
  by (simp add: row_by_named_path_def scan_level_last split: option.splits)

lemma row_by_named_path_scenarios:
  "row_by_named_path scenario_tree (PathList [''A'', ''B'']) 0 ''/''
     = Inr (Some [example_item 0 0 ''B'' [], example_item 0 1 ''X'' []])
   \<and> row_by_named_path scenario_tree (PathStr ''A/B'') 0 ''/''
     = Inr (Some [example_item 0 0 ''B'' [], example_item 0 1 ''X'' []])
   \<and> row_by_named_path scenario_tree (PathList [''A'', ''Z'']) 0 ''/'' = Inr None"
  by (simp add: row_by_named_path_def py_split_def scenario_tree_def example_item_def)

text \<open>
  C2. The postcondition says that a path whose parts match item by item, descending into
  the matched item's children, resolves to the row of the last matched item. The loop
  breaks it where a name is repeated at a level that is descended into: at such a level
  the \<^verbatim>\<open>for\<close> loop has no \<^verbatim>\<open>break\<close> after \<^verbatim>\<open>next_item = item_\<close> and goes on to the
  last matching item. In \<open>dup_tree\<close> the part \<^verbatim>\<open>A\<close> matches the first top-level item and
  \<^verbatim>\<open>B\<close> matches a child of that item, so the path exists and \<open>resolve_first\<close> gives the
  row of \<^verbatim>\<open>B\<close>; the call descends into the second \<^verbatim>\<open>A\<close>, which has no children, and
  returns \<^verbatim>\<open>None\<close>.
\<close>

theorem row_by_named_path_existing_path_None:
  "matches 0 ''A'' (dup_tree ! 0)
   \<and> matches 0 ''B'' (items (dup_tree ! 0) ! 0)
   \<and> resolve_first 0 dup_tree [''A'', ''B''] = Some [example_item 0 0 ''B'' []]
   \<and> row_by_named_path dup_tree (PathList [''A'', ''B'']) 0 ''/'' = Inr None"
  by (simp add: row_by_named_path_def dup_tree_def example_item_def matches_def full_row_def)

text \<open>
  C5. First match wins holds at the final part and fails at a part that is not the final
  one. In \<open>tie_tree\<close> two top-level items match \<^verbatim>\<open>A\<close>. The path \<^verbatim>\<open>A\<close> alone gives the
  row of the first of them. For the path \<^verbatim>\<open>A\<close>, \<^verbatim>\<open>X\<close>, descending into the first
  \<^verbatim>\<open>A\<close> finds \<^verbatim>\<open>X\<close>, and that is what \<open>resolve_first\<close> gives; the call descends into
  the second \<^verbatim>\<open>A\<close> and returns \<^verbatim>\<open>None\<close>. For the path \<^verbatim>\<open>A\<close>, \<^verbatim>\<open>Y\<close> it returns the
  row of \<^verbatim>\<open>Y\<close>, a child of the second \<^verbatim>\<open>A\<close>, which the first \<^verbatim>\<open>A\<close> does not have.
\<close>

theorem row_by_named_path_descends_into_last_match:
  "find (matches 0 ''A'') tie_tree = Some (example_item 0 0 ''A'' [example_item 0 0 ''X'' []])
   \<and> row_by_named_path tie_tree (PathList [''A'']) 0 ''/''
       = Inr (Some [example_item 0 0 ''A'' [example_item 0 0 ''X'' []]])
   \<and> resolve_first 0 tie_tree [''A'', ''X''] = Some [example_item 0 0 ''X'' []]
   \<and> row_by_named_path tie_tree (PathList [''A'', ''X'']) 0 ''/'' = Inr None
   \<and> resolve_first 0 tie_tree [''A'', ''Y''] = None
   \<and> row_by_named_path tie_tree (PathList [''A'', ''Y'']) 0 ''/''
       = Inr (Some [example_item 0 0 ''Y'' []])"
  by (simp add: row_by_named_path_def tie_tree_def example_item_def matches_def full_row_def)

section \<open>The property proxy\<close>

lemma sent_send_command:
  "sent (snd (send_command srv name kwargs cl)) = sent cl @ [Command name kwargs]"
  by (simp add: send_command_def split: prod.splits)

lemma fst_send_command:
  "fst (send_command srv name kwargs cl) = fst (answer srv (remote cl) (Command name kwargs))"
  by (simp add: send_command_def split: prod.splits)

lemma send_command_answer:
  "answer srv (remote cl) (Command name kwargs) = (r, w) \<Longrightarrow>
     send_command srv name kwargs cl = (r, \<lparr>remote = w, sent = sent cl @ [Command name kwargs]\<rparr>)"
  by (simp add: send_command_def)

lemma sent_Properties_getitem:
  "sent (snd (Properties_getitem srv self name cl))
     = sent cl @ [Command ''object_properties'' [(''oid'', oid_of self)]]"
proof -
  obtain r cl' where c: "Properties_call srv self cl = (r, cl')" by (cases "Properties_call srv self cl")
  then have "sent cl' = sent cl @ [Command ''object_properties'' [(''oid'', oid_of self)]]"
    using sent_send_command [of srv "''object_properties''" "[(''oid'', oid_of self)]" cl]
    by (simp add: Properties_call_def)
  with c show ?thesis
    by (cases r) (simp_all add: Properties_getitem_def op_bind_def op_lift_def)
qed

lemma sent_set_properties:
  "sent (snd (set_properties srv self properties cl))
     = sent cl @ [Command ''object_set_properties''
                     [(''oid'', oid_of self), (''properties'', JObj properties)]]"
proof -
  let ?c = "send_command srv ''object_set_properties''
      [(''oid'', oid_of self), (''properties'', JObj properties)] cl"
  obtain r cl' where c: "?c = (r, cl')" by (cases ?c)
  with sent_send_command [of srv "''object_set_properties''" _ cl]
  have "sent cl' = sent cl @ [Command ''object_set_properties''
      [(''oid'', oid_of self), (''properties'', JObj properties)]]"
    by (metis snd_conv)
  with c show ?thesis
    by (cases r) (simp_all add: set_properties_def op_bind_def op_lift_def)
qed

text \<open>
  C6, as amended. On the property proxy of an object, the item read is one
  \<^verbatim>\<open>object_properties\<close> query whose reply is looked up at the name (a missing name
  raises \<^verbatim>\<open>KeyError\<close>, a failed query is passed on), and \<^verbatim>\<open>__getattr__\<close> is the same
  operation; the attribute read \<^verbatim>\<open>proxy.name\<close> is that operation for every name that
  is not an attribute of the proxy itself. Every bulk read and every single read sends
  the query again, so two reads in a row send two queries: nothing is cached. The item
  write and the attribute write are, for every name, the same operation as
  \<^verbatim>\<open>set_property\<close>: for a name other than \<^verbatim>\<open>self\<close>, one \<^verbatim>\<open>object_set_properties\<close>
  command carrying the single entry; for the name \<^verbatim>\<open>self\<close>, a \<^verbatim>\<open>TypeError\<close> with
  nothing sent.
\<close>

theorem Properties_access_styles:
  "Properties_getattr srv self name = Properties_getitem srv self name
   \<and> Properties_getitem srv self name cl
       = (case Properties_call srv self cl of
            (Inl e, cl') \<Rightarrow> (Inl e, cl')
          | (Inr properties, cl') \<Rightarrow> (py_getitem properties name, cl'))
   \<and> (\<forall>d v cl'. Properties_call srv self cl = (Inr (JObj d), cl') \<and> map_of d name = Some v \<longrightarrow>
          Properties_getitem srv self name cl = (Inr v, cl')
          \<and> Properties_getattr srv self name cl = (Inr v, cl'))
   \<and> (\<not> proxy_attribute object_attrs name \<longrightarrow>
        Properties_attribute_read object_attrs srv self name cl
          = (case Properties_getitem srv self name cl of
               (Inl e, cl') \<Rightarrow> (Inl e, cl')
             | (Inr x, cl') \<Rightarrow> (Inr (Property x), cl')))
   \<and> fst (Properties_call srv self cl)
       = fst (answer srv (remote cl) (Command ''object_properties'' [(''oid'', oid_of self)]))
   \<and> sent (snd (Properties_call srv self cl))
       = sent cl @ [Command ''object_properties'' [(''oid'', oid_of self)]]
   \<and> sent (snd (Properties_getitem srv self name
                   (snd (Properties_getitem srv self name cl))))
       = sent cl @ [Command ''object_properties'' [(''oid'', oid_of self)],
                    Command ''object_properties'' [(''oid'', oid_of self)]]
   \<and> Properties_setitem srv self name v = set_property srv self name v
   \<and> Properties_setattr srv self name v = set_property srv self name v
   \<and> (name \<noteq> ''self'' \<longrightarrow>
        sent (snd (set_property srv self name v cl))
          = sent cl @ [Command ''object_set_properties''
                         [(''oid'', oid_of self), (''properties'', JObj [(name, v)])]])
   \<and> set_property srv self ''self'' v cl = (Inl TypeError, cl)
   \<and> Properties_setitem srv self ''self'' v cl = (Inl TypeError, cl)
   \<and> Properties_setattr srv self ''self'' v cl = (Inl TypeError, cl)"
proof -
  have a: "Properties_getattr srv self name = Properties_getitem srv self name"
    by (simp add: Properties_getattr_def Properties_getitem_def)
  have b: "Properties_getitem srv self name cl
       = (case Properties_call srv self cl of
            (Inl e, cl') \<Rightarrow> (Inl e, cl')
          | (Inr properties, cl') \<Rightarrow> (py_getitem properties name, cl'))"
    by (simp add: Properties_getitem_def op_bind_def op_lift_def split: prod.splits sum.splits)
  have c: "\<forall>d v cl'. Properties_call srv self cl = (Inr (JObj d), cl') \<and> map_of d name = Some v \<longrightarrow>
          Properties_getitem srv self name cl = (Inr v, cl')
          \<and> Properties_getattr srv self name cl = (Inr v, cl')"
    by (simp add: a b)
  have c': "\<not> proxy_attribute object_attrs name \<longrightarrow>
        Properties_attribute_read object_attrs srv self name cl
          = (case Properties_getitem srv self name cl of
               (Inl e, cl') \<Rightarrow> (Inl e, cl')
             | (Inr x, cl') \<Rightarrow> (Inr (Property x), cl'))"
    by (simp add: Properties_attribute_read_def a op_bind_def op_lift_def
        split: prod.splits sum.splits)
  have d: "fst (Properties_call srv self cl)
       = fst (answer srv (remote cl) (Command ''object_properties'' [(''oid'', oid_of self)]))"
    by (simp add: Properties_call_def fst_send_command)
  have e: "sent (snd (Properties_call srv self cl))
       = sent cl @ [Command ''object_properties'' [(''oid'', oid_of self)]]"
    by (simp add: Properties_call_def sent_send_command)
  have f: "sent (snd (Properties_getitem srv self name
                   (snd (Properties_getitem srv self name cl))))
       = sent cl @ [Command ''object_properties'' [(''oid'', oid_of self)],
                    Command ''object_properties'' [(''oid'', oid_of self)]]"
    by (simp add: sent_Properties_getitem)
  have g: "Properties_setitem srv self name v = set_property srv self name v"
    "Properties_setattr srv self name v = set_property srv self name v"
    by (simp_all add: Properties_setitem_def Properties_setattr_def set_property_def)
  have h: "name \<noteq> ''self'' \<longrightarrow>
        sent (snd (set_property srv self name v cl))
          = sent cl @ [Command ''object_set_properties''
                         [(''oid'', oid_of self), (''properties'', JObj [(name, v)])]]"
    by (simp add: set_property_def call_set_properties_def sent_set_properties)
  have k: "set_property srv self ''self'' v cl = (Inl TypeError, cl)"
    "Properties_setitem srv self ''self'' v cl = (Inl TypeError, cl)"
    "Properties_setattr srv self ''self'' v cl = (Inl TypeError, cl)"
    by (simp_all add: set_property_def Properties_setitem_def Properties_setattr_def
        call_set_properties_def op_lift_def)
  from a b c c' d e f g h k show ?thesis by (intro conjI)
qed

theorem Properties_access_styles_witness:
  "Properties_getitem echo_server combo_box ''text'' \<lparr>remote = [(''text'', JStr ''hi'')], sent = []\<rparr>
     = (Inr (JStr ''hi''),
        \<lparr>remote = [(''text'', JStr ''hi'')], sent = [Command ''object_properties'' [(''oid'', JNum 7)]]\<rparr>)
   \<and> Properties_getattr echo_server combo_box ''text'' \<lparr>remote = [(''text'', JStr ''hi'')], sent = []\<rparr>
     = (Inr (JStr ''hi''),
        \<lparr>remote = [(''text'', JStr ''hi'')], sent = [Command ''object_properties'' [(''oid'', JNum 7)]]\<rparr>)
   \<and> Properties_attribute_read [''__class__'', ''__dict__'', ''__doc__''] echo_server combo_box ''text''
        \<lparr>remote = [(''text'', JStr ''hi'')], sent = []\<rparr>
     = (Inr (Property (JStr ''hi'')),
        \<lparr>remote = [(''text'', JStr ''hi'')], sent = [Command ''object_properties'' [(''oid'', JNum 7)]]\<rparr>)
   \<and> sent (snd (set_property echo_server combo_box ''text'' (JStr ''ho'')
                   \<lparr>remote = [(''text'', JStr ''hi'')], sent = []\<rparr>))
     = [Command ''object_set_properties''
          [(''oid'', JNum 7), (''properties'', JObj [(''text'', JStr ''ho'')])]]"
proof -
  let ?cl = "\<lparr>remote = [(''text'', JStr ''hi'')], sent = []\<rparr> :: dict client"
  let ?cl' = "\<lparr>remote = [(''text'', JStr ''hi'')],
                sent = [Command ''object_properties'' [(''oid'', JNum 7)]]\<rparr> :: dict client"
  have call: "Properties_call echo_server combo_box ?cl = (Inr (JObj [(''text'', JStr ''hi'')]), ?cl')"
    by (simp add: Properties_call_def send_command_def echo_server_def combo_box_def
        Object_init_def oid_of_def getattr_default_def)
  have look: "map_of [(''text'', JStr ''hi'')] ''text'' = Some (JStr ''hi'')" by simp
  have own: "\<not> proxy_attribute [''__class__'', ''__dict__'', ''__doc__''] ''text''"
    by (simp add: proxy_attribute_def Properties_methods_def)
  note T = Properties_access_styles [of echo_server combo_box "''text''" ?cl
      "[''__class__'', ''__dict__'', ''__doc__'']"]
  from T [THEN conjunct2, THEN conjunct2, THEN conjunct1, rule_format, OF conjI, OF call look]
  have r: "Properties_getitem echo_server combo_box ''text'' ?cl = (Inr (JStr ''hi''), ?cl')"
    "Properties_getattr echo_server combo_box ''text'' ?cl = (Inr (JStr ''hi''), ?cl')"
    by simp_all
  from T [THEN conjunct2, THEN conjunct2, THEN conjunct2, THEN conjunct1, rule_format, OF own]
  have ar: "Properties_attribute_read [''__class__'', ''__dict__'', ''__doc__''] echo_server combo_box
      ''text'' ?cl = (Inr (Property (JStr ''hi'')), ?cl')"
    unfolding r by simp
  have oid: "oid_of combo_box = JNum 7"
    by (simp add: combo_box_def Object_init_def oid_of_def getattr_default_def)
  have ne: "''text'' \<noteq> ''self''" by simp
  from T [of "JStr ''ho''", THEN conjunct2, THEN conjunct2, THEN conjunct2, THEN conjunct2,
      THEN conjunct2, THEN conjunct2, THEN conjunct2, THEN conjunct2, THEN conjunct2,
      THEN conjunct1, rule_format, OF ne]
  have w: "sent (snd (set_property echo_server combo_box ''text'' (JStr ''ho'') ?cl))
      = [Command ''object_set_properties''
           [(''oid'', JNum 7), (''properties'', JObj [(''text'', JStr ''ho'')])]]"
    by (simp add: oid)
  from r ar w show ?thesis by simp
qed

text \<open>
  The claim as stated fails for a name that is an attribute of the proxy itself. The
  item read of \<^verbatim>\<open>_Properties__obj\<close> queries the remote object and raises \<^verbatim>\<open>KeyError\<close>
  where there is no such property; the attribute read of that name finds the
  back-reference stored by \<^verbatim>\<open>__init__\<close> and sends nothing.
\<close>

theorem Properties_attribute_counterexample:
  "Properties_attribute_read [] echo_server combo_box ''_Properties__obj''
        \<lparr>remote = [(''text'', JStr ''hi'')], sent = []\<rparr>
     = (Inr Own_attribute, \<lparr>remote = [(''text'', JStr ''hi'')], sent = []\<rparr>)
   \<and> Properties_getitem echo_server combo_box ''_Properties__obj''
        \<lparr>remote = [(''text'', JStr ''hi'')], sent = []\<rparr>
     = (Inl (KeyError ''_Properties__obj''),
        \<lparr>remote = [(''text'', JStr ''hi'')],
          sent = [Command ''object_properties'' [(''oid'', JNum 7)]]\<rparr>)"
  by (simp add: Properties_attribute_read_def proxy_attribute_def Properties_getitem_def
      Properties_call_def send_command_def echo_server_def combo_box_def Object_init_def
      oid_of_def getattr_default_def op_bind_def op_lift_def)

section \<open>Waiting for properties\<close>

lemma props_match_skip:
  "map_of snapshot k = None \<Longrightarrow>
     props_match (JObj snapshot) (pre @ (k, JNull) # post) = props_match (JObj snapshot) (pre @ post)"
  by (induction pre) (auto split: option.splits)

lemma wait_for_True:
  "predicate cl = (Inr True, cl') \<Longrightarrow> wait_for predicate polls cl = (Inr True, cl')"
  by (cases polls) simp_all

text \<open>
  C10. In \<^verbatim>\<open>check_props\<close> an expected value \<^verbatim>\<open>None\<close> is satisfied by a snapshot that
  lacks the key: the entry can be dropped from the expected mapping without changing the
  outcome of the check. So \<^verbatim>\<open>wait_for_properties({k: None})\<close> returns \<^verbatim>\<open>True\<close> after a
  single \<^verbatim>\<open>object_properties\<close> query whose reply lacks \<^verbatim>\<open>k\<close>, whatever the timeout.
\<close>

theorem wait_for_properties_None_absent:
  "(map_of snapshot k = None \<longrightarrow>
      props_match (JObj snapshot) (pre @ (k, JNull) # post)
        = props_match (JObj snapshot) (pre @ post))
   \<and> (answer srv (remote cl) (Command ''object_properties'' [(''oid'', oid_of self)])
         = (Inr (JObj snapshot), w) \<and> map_of snapshot k = None \<longrightarrow>
      wait_for_properties srv self [(k, JNull)] polls cl
        = (Inr True,
           \<lparr>remote = w, sent = sent cl @ [Command ''object_properties'' [(''oid'', oid_of self)]]\<rparr>))"
proof (intro conjI impI)
  assume "map_of snapshot k = None"
  then show "props_match (JObj snapshot) (pre @ (k, JNull) # post)
      = props_match (JObj snapshot) (pre @ post)"
    by (rule props_match_skip)
next
  assume h: "answer srv (remote cl) (Command ''object_properties'' [(''oid'', oid_of self)])
         = (Inr (JObj snapshot), w) \<and> map_of snapshot k = None"
  then have "check_props srv self [(k, JNull)] cl
      = (Inr True,
         \<lparr>remote = w, sent = sent cl @ [Command ''object_properties'' [(''oid'', oid_of self)]]\<rparr>)"
    by (simp add: check_props_def Properties_call_def send_command_answer op_bind_def op_lift_def)
  then show "wait_for_properties srv self [(k, JNull)] polls cl
      = (Inr True,
         \<lparr>remote = w, sent = sent cl @ [Command ''object_properties'' [(''oid'', oid_of self)]]\<rparr>)"
    unfolding wait_for_properties_def by (rule wait_for_True)
qed

theorem wait_for_properties_None_absent_witness:
  "map_of [(''enabled'', JBool True)] ''missing'' = None
   \<and> props_match (JObj [(''enabled'', JBool True)]) [(''enabled'', JBool True), (''missing'', JNull)]
       = Inr True
   \<and> wait_for_properties echo_server combo_box [(''missing'', JNull)] 100
        \<lparr>remote = [(''enabled'', JBool True)], sent = []\<rparr>
       = (Inr True,
          \<lparr>remote = [(''enabled'', JBool True)],
            sent = [Command ''object_properties'' [(''oid'', JNum 7)]]\<rparr>)"
proof -
  let ?cl = "\<lparr>remote = [(''enabled'', JBool True)], sent = []\<rparr> :: dict client"
  have absent: "map_of [(''enabled'', JBool True)] ''missing'' = None" by simp
  have oid: "oid_of combo_box = JNum 7"
    by (simp add: combo_box_def Object_init_def oid_of_def getattr_default_def)
  have reply: "answer echo_server (remote ?cl) (Command ''object_properties'' [(''oid'', oid_of combo_box)])
      = (Inr (JObj [(''enabled'', JBool True)]), [(''enabled'', JBool True)])"
    by (simp add: echo_server_def)
  note T = wait_for_properties_None_absent [of "[(''enabled'', JBool True)]" "''missing''" _ _
      echo_server ?cl combo_box "[(''enabled'', JBool True)]" 100]
  from T [of "[(''enabled'', JBool True)]" "[]", THEN conjunct1, rule_format, OF absent]
  have m: "props_match (JObj [(''enabled'', JBool True)]) [(''enabled'', JBool True), (''missing'', JNull)]
      = Inr True" by simp
  from T [of "[]" "[]", THEN conjunct2, rule_format, OF conjI, OF reply absent]
  have "wait_for_properties echo_server combo_box [(''missing'', JNull)] 100 ?cl
      = (Inr True, \<lparr>remote = [(''enabled'', JBool True)],
            sent = [Command ''object_properties'' [(''oid'', JNum 7)]]\<rparr>)"
    by (simp add: oid)
  with absent m show ?thesis by simp
qed

section \<open>Click operations with an invalid button\<close>

lemma mouse_action_None:
  "btn \<noteq> ''left'' \<Longrightarrow> btn \<noteq> ''right'' \<Longrightarrow> btn \<noteq> ''middle'' \<Longrightarrow> mouse_action btn = None"
  by (simp add: mouse_action_def)

lemma sent_check_props:
  "sent (snd (check_props srv self props cl))
     = sent cl @ [Command ''object_properties'' [(''oid'', oid_of self)]]"
proof -
  let ?c = "send_command srv ''object_properties'' [(''oid'', oid_of self)] cl"
  obtain r cl' where c: "?c = (r, cl')" by (cases ?c)
  with sent_send_command [of srv "''object_properties''" "[(''oid'', oid_of self)]" cl]
  have "sent cl' = sent cl @ [Command ''object_properties'' [(''oid'', oid_of self)]]"
    by simp
  with c show ?thesis
    by (cases r) (simp_all add: check_props_def Properties_call_def op_bind_def op_lift_def)
qed

lemma sent_wait_for_properties:
  "\<exists>n\<le>polls. sent (snd (wait_for_properties srv self props polls cl))
     = sent cl @ replicate (Suc n) (Command ''object_properties'' [(''oid'', oid_of self)])"
  unfolding wait_for_properties_def
proof (induction polls arbitrary: cl)
  case 0
  show ?case by (simp add: sent_check_props)
next
  case (Suc polls)
  let ?q = "Command ''object_properties'' [(''oid'', oid_of self)]"
  obtain r cl' where c: "check_props srv self props cl = (r, cl')"
    by (cases "check_props srv self props cl")
  with sent_check_props [of srv self props cl] have s: "sent cl' = sent cl @ [?q]" by simp
  show ?case
  proof (cases "r = Inr False")
    case True
    from Suc.IH [of cl'] obtain n where n: "n \<le> polls"
      "sent (snd (wait_for (check_props srv self props) polls cl')) = sent cl' @ replicate (Suc n) ?q"
      by blast
    from c True have "wait_for (check_props srv self props) (Suc polls) cl
        = wait_for (check_props srv self props) polls cl'" by simp
    with n s have "Suc n \<le> Suc polls
        \<and> sent (snd (wait_for (check_props srv self props) (Suc polls) cl))
          = sent cl @ replicate (Suc (Suc n)) ?q"
      by simp
    then show ?thesis by blast
  next
    case False
    with c have "wait_for (check_props srv self props) (Suc polls) cl = (r, cl')"
      by (cases r) (auto split: bool.splits)
    with s have "0 \<le> Suc polls
        \<and> sent (snd (wait_for (check_props srv self props) (Suc polls) cl))
          = sent cl @ replicate (Suc 0) ?q"
      by simp
    then show ?thesis by blast
  qed
qed

text \<open>
  C7, as amended. For a button other than \<^verbatim>\<open>left\<close>, \<^verbatim>\<open>right\<close> and \<^verbatim>\<open>middle\<close>:
  \<^verbatim>\<open>GItem.click\<close> and \<^verbatim>\<open>AbstractItemView.click_item\<close> raise \<^verbatim>\<open>ValueError\<close> with the
  message \<^verbatim>\<open>Invalid mouse button: \<close> followed by the button, and send nothing;
  \<^verbatim>\<open>Widget.click\<close> does the same when \<^verbatim>\<open>wait_for_enabled\<close> is not positive. With a
  positive \<^verbatim>\<open>wait_for_enabled\<close>, \<^verbatim>\<open>Widget.click\<close> first waits for the widget to be
  enabled and visible: it ends in the state the wait ends in, having sent only the
  \<^verbatim>\<open>object_properties\<close> queries of the wait and no click command, and it raises the
  wait's failure if the wait fails and that \<^verbatim>\<open>ValueError\<close> otherwise.
\<close>

theorem invalid_button_raises:
  assumes "btn \<noteq> ''left''" and "btn \<noteq> ''right''" and "btn \<noteq> ''middle''"
  shows "invalid_button btn = ValueError (''Invalid mouse button: '' @ btn)
       \<and> GItem_click srv gitem btn cl = (Inl (invalid_button btn), cl)
       \<and> click_item srv self item origin offset_x offset_y btn cl = (Inl (invalid_button btn), cl)
       \<and> (wait_for_enabled \<le> 0 \<longrightarrow>
            Widget_click srv polls self wait_for_enabled btn cl = (Inl (invalid_button btn), cl))
       \<and> (0 < wait_for_enabled \<longrightarrow>
            Widget_click srv polls self wait_for_enabled btn cl
              = (case wait_for_properties srv self
                        [(''enabled'', JBool True), (''visible'', JBool True)] polls cl of
                   (Inl e, cl') \<Rightarrow> (Inl e, cl')
                 | (Inr waited, cl') \<Rightarrow> (Inl (invalid_button btn), cl'))
            \<and> (\<exists>n\<le>polls. sent (snd (Widget_click srv polls self wait_for_enabled btn cl))
                  = sent cl @ replicate (Suc n)
                               (Command ''object_properties'' [(''oid'', oid_of self)])))"
proof -
  note none = mouse_action_None [OF assms]
  let ?w = "wait_for_properties srv self [(''enabled'', JBool True), (''visible'', JBool True)] polls cl"
  have a: "invalid_button btn = ValueError (''Invalid mouse button: '' @ btn)"
    by (simp add: invalid_button_def)
  have b: "GItem_click srv gitem btn cl = (Inl (invalid_button btn), cl)"
    by (simp add: GItem_click_def none op_lift_def)
  have c: "click_item srv self item origin offset_x offset_y btn cl = (Inl (invalid_button btn), cl)"
    by (simp add: click_item_def none op_lift_def)
  have d: "wait_for_enabled \<le> 0 \<longrightarrow>
      Widget_click srv polls self wait_for_enabled btn cl = (Inl (invalid_button btn), cl)"
    by (simp add: Widget_click_def none op_lift_def op_bind_def)
  have e: "Widget_click srv polls self wait_for_enabled btn cl
      = (case ?w of (Inl e, cl') \<Rightarrow> (Inl e, cl') | (Inr waited, cl') \<Rightarrow> (Inl (invalid_button btn), cl'))"
    if "0 < wait_for_enabled"
    using that
    by (simp add: Widget_click_def none op_lift_def op_bind_def split: prod.splits sum.splits)
  have f: "\<exists>n\<le>polls. sent (snd (Widget_click srv polls self wait_for_enabled btn cl))
      = sent cl @ replicate (Suc n) (Command ''object_properties'' [(''oid'', oid_of self)])"
    if "0 < wait_for_enabled"
  proof -
    have "snd (Widget_click srv polls self wait_for_enabled btn cl) = snd ?w"
      unfolding e [OF that] by (simp split: prod.splits sum.splits)
    then show ?thesis by (simp only: sent_wait_for_properties)
  qed
  from e f have g: "0 < wait_for_enabled \<longrightarrow>
            Widget_click srv polls self wait_for_enabled btn cl
              = (case ?w of (Inl e, cl') \<Rightarrow> (Inl e, cl')
                 | (Inr waited, cl') \<Rightarrow> (Inl (invalid_button btn), cl'))
            \<and> (\<exists>n\<le>polls. sent (snd (Widget_click srv polls self wait_for_enabled btn cl))
                  = sent cl @ replicate (Suc n)
                               (Command ''object_properties'' [(''oid'', oid_of self)]))"
    by blast
  from a b c d g show ?thesis by (intro conjI)
qed

theorem invalid_button_raises_witness:
  "GItem_click combo_server (TreeItem [(''gid'', JNum 3)] []) ''up'' \<lparr>remote = (), sent = []\<rparr>
     = (Inl (ValueError ''Invalid mouse button: up''), \<lparr>remote = (), sent = []\<rparr>)
   \<and> Widget_click combo_server 5 combo_box 0 ''up'' \<lparr>remote = (), sent = []\<rparr>
     = (Inl (ValueError ''Invalid mouse button: up''), \<lparr>remote = (), sent = []\<rparr>)"
proof -
  have ne: "''up'' \<noteq> ''left''" "''up'' \<noteq> ''right''" "''up'' \<noteq> ''middle''" by simp_all
  note T = invalid_button_raises [OF ne, of combo_server _ "\<lparr>remote = (), sent = []\<rparr>"]
  have a: "invalid_button ''up'' = ValueError ''Invalid mouse button: up''"
    using T [THEN conjunct1] by simp
  have b: "GItem_click combo_server (TreeItem [(''gid'', JNum 3)] []) ''up'' \<lparr>remote = (), sent = []\<rparr>
      = (Inl (invalid_button ''up''), \<lparr>remote = (), sent = []\<rparr>)"
    by (rule T [THEN conjunct2, THEN conjunct1])
  have "(0::real) \<le> 0" by simp
  then have c: "Widget_click combo_server 5 combo_box 0 ''up'' \<lparr>remote = (), sent = []\<rparr>
      = (Inl (invalid_button ''up''), \<lparr>remote = (), sent = []\<rparr>)"
    by (rule T [THEN conjunct2, THEN conjunct2, THEN conjunct2, THEN conjunct1, rule_format])
  show ?thesis unfolding b c a by simp
qed

text \<open>
  The claim as stated fails twice over. With the default \<^verbatim>\<open>wait_for_enabled\<close> of ten
  seconds, \<^verbatim>\<open>Widget.click\<close> with the button \<^verbatim>\<open>up\<close> has already sent an
  \<^verbatim>\<open>object_properties\<close> query when it raises; and the message of the error is
  \<^verbatim>\<open>Invalid mouse button: up\<close>, which does not name the legal buttons.
\<close>

theorem invalid_button_counterexample:
  "Widget_click combo_server 0 combo_box 10 ''up'' \<lparr>remote = (), sent = []\<rparr>
     = (Inl (ValueError ''Invalid mouse button: up''),
        \<lparr>remote = (), sent = [Command ''object_properties'' [(''oid'', JNum 7)]]\<rparr>)"
  by (simp add: Widget_click_def wait_for_properties_def check_props_def Properties_call_def
      send_command_def combo_server_def combo_box_def Object_init_def oid_of_def
      getattr_default_def op_bind_def op_lift_def mouse_action_def invalid_button_def)

section \<open>ComboBox.set_current_text\<close>

lemma text_index_find:
  "text_index col text xs =
     (case find (\<lambda>item. py_eq col (JNum (real (column (attrs item))))
                    \<and> item_value (attrs item) = text) xs of
        None \<Rightarrow> - 1
      | Some item \<Rightarrow> int (row (attrs item)))"
  by (induction xs) simp_all

lemma call_meta_no_hit:
  assumes "map_of kvs ''classes'' = Some (JArr (map JStr names))"
    and "find (\<lambda>n. reg n \<noteq> None) names = None"
  shows "call_meta reg cls (JObj kvs) = Inr (Object_init cls kvs)"
proof -
  have "walk_chain reg cls (map JStr names) = Direct"
    using assms(2) by (simp add: walk_chain_names)
  with class_chain_names [OF assms(1)] show ?thesis by (rule call_meta_Direct)
qed

lemma set_current_text_index:
  assumes "answer srv (remote cl) (Command ''object_properties'' [(''oid'', oid_of self)])
             = (Inr (JObj ps), w1)"
    and "map_of ps ''modelColumn'' = Some col"
    and "answer srv w1 (Command ''model'' [(''oid'', oid_of self)]) = (Inr (JObj md), w2)"
    and "map_of md ''classes'' = Some (JArr (map JStr names))"
    and "find (\<lambda>n. cpp_classes n \<noteq> None) names = None"
    and "answer_items srv w2 (Command ''model_items'' [(''oid'', getattr_default md ''oid'')])
             = (Inr its, w3)"
  shows "set_current_text srv render self text cl =
     (if - 1 < text_index col text (TreeItems_iter its)
      then set_property srv self ''currentIndex''
             (JNum (real_of_int (text_index col text (TreeItems_iter its))))
             \<lparr>remote = w3,
               sent = sent cl @ [Command ''object_properties'' [(''oid'', oid_of self)],
                                 Command ''model'' [(''oid'', oid_of self)],
                                 Command ''model_items'' [(''oid'', getattr_default md ''oid'')]]\<rparr>
      else (Inl (AssertionError (not_in_combobox render text (path_of self))),
            \<lparr>remote = w3,
              sent = sent cl @ [Command ''object_properties'' [(''oid'', oid_of self)],
                                Command ''model'' [(''oid'', oid_of self)],
                                Command ''model_items'' [(''oid'', getattr_default md ''oid'')]]\<rparr>))"
proof -
  let ?cl1 = "\<lparr>remote = w1, sent = sent cl @ [Command ''object_properties'' [(''oid'', oid_of self)]]\<rparr>"
  let ?cl2 = "\<lparr>remote = w2, sent = sent ?cl1 @ [Command ''model'' [(''oid'', oid_of self)]]\<rparr>"
  let ?mdl = "Object_init AbstractItemModel md"
  have g: "Properties_getitem srv self ''modelColumn'' cl = (Inr col, ?cl1)"
    using assms(1,2)
    by (simp add: Properties_getitem_def Properties_call_def send_command_answer op_bind_def
        op_lift_def)
  have "send_command srv ''model'' [(''oid'', oid_of self)] ?cl1 = (Inr (JObj md), ?cl2)"
    using assms(3) by (simp add: send_command_def)
  then have m: "ComboBox_model srv self ?cl1 = (Inr ?mdl, ?cl2)"
    by (simp add: ComboBox_model_def op_bind_def op_lift_def call_meta_no_hit [OF assms(4,5)])
  have oid: "oid_of ?mdl = getattr_default md ''oid''"
    by (simp add: oid_of_def Object_init_def)
  have i: "AbstractItemModel_items srv ?mdl ?cl2
      = (Inr its, \<lparr>remote = w3,
           sent = sent ?cl2 @ [Command ''model_items'' [(''oid'', getattr_default md ''oid'')]]\<rparr>)"
    using assms(6) by (simp add: AbstractItemModel_items_def oid) (simp add: Object_init_def)
  from g m i show ?thesis
    unfolding set_current_text_def
    by (simp add: op_bind_def op_lift_def)
qed

text \<open>
  C8. \<^verbatim>\<open>set_current_text\<close> reads the property \<^verbatim>\<open>modelColumn\<close>, fetches the model and
  its items, and looks for the first item in iteration order that is in that column and
  carries the text. If there is one, the call writes the row of that item to
  \<^verbatim>\<open>currentIndex\<close> with one \<^verbatim>\<open>object_set_properties\<close> command. If there is none, it
  raises \<^verbatim>\<open>AssertionError\<close> with a message that holds the text and the path of the
  widget, and the three reads are the only commands sent.
\<close>

theorem set_current_text_lookup:
  assumes "answer srv (remote cl) (Command ''object_properties'' [(''oid'', oid_of self)])
             = (Inr (JObj ps), w1)"
    and "map_of ps ''modelColumn'' = Some col"
    and "answer srv w1 (Command ''model'' [(''oid'', oid_of self)]) = (Inr (JObj md), w2)"
    and "map_of md ''classes'' = Some (JArr (map JStr names))"
    and "find (\<lambda>n. cpp_classes n \<noteq> None) names = None"
    and "answer_items srv w2 (Command ''model_items'' [(''oid'', getattr_default md ''oid'')])
             = (Inr its, w3)"
  shows "(find (\<lambda>item. py_eq col (JNum (real (column (attrs item))))
                   \<and> item_value (attrs item) = text) (TreeItems_iter its) = Some item \<longrightarrow>
            set_current_text srv render self text cl
              = set_property srv self ''currentIndex'' (JNum (real (row (attrs item))))
                  \<lparr>remote = w3,
                    sent = sent cl @ [Command ''object_properties'' [(''oid'', oid_of self)],
                                      Command ''model'' [(''oid'', oid_of self)],
                                      Command ''model_items'' [(''oid'', getattr_default md ''oid'')]]\<rparr>
            \<and> sent (snd (set_current_text srv render self text cl))
                = sent cl @ [Command ''object_properties'' [(''oid'', oid_of self)],
                             Command ''model'' [(''oid'', oid_of self)],
                             Command ''model_items'' [(''oid'', getattr_default md ''oid'')],
                             Command ''object_set_properties''
                               [(''oid'', oid_of self),
                                (''properties'',
                                 JObj [(''currentIndex'', JNum (real (row (attrs item))))])]])
       \<and> (find (\<lambda>item. py_eq col (JNum (real (column (attrs item))))
                   \<and> item_value (attrs item) = text) (TreeItems_iter its) = None \<longrightarrow>
            set_current_text srv render self text cl
              = (Inl (AssertionError
                        (''The text `'' @ text @ ''` is not in the combobox `''
                           @ py_format render (path_of self) @ ''`'')),
                 \<lparr>remote = w3,
                   sent = sent cl @ [Command ''object_properties'' [(''oid'', oid_of self)],
                                     Command ''model'' [(''oid'', oid_of self)],
                                     Command ''model_items'' [(''oid'', getattr_default md ''oid'')]]\<rparr>))
       \<and> py_format render (JStr p) = p"
proof (intro conjI impI)
  note eq = set_current_text_index [OF assms, of render "text"]
  {
    assume f: "find (\<lambda>item. py_eq col (JNum (real (column (attrs item))))
        \<and> item_value (attrs item) = text) (TreeItems_iter its) = Some item"
    then have ix: "text_index col text (TreeItems_iter its) = int (row (attrs item))"
      by (simp add: text_index_find)
    show w: "set_current_text srv render self text cl
        = set_property srv self ''currentIndex'' (JNum (real (row (attrs item))))
            \<lparr>remote = w3,
              sent = sent cl @ [Command ''object_properties'' [(''oid'', oid_of self)],
                                Command ''model'' [(''oid'', oid_of self)],
                                Command ''model_items'' [(''oid'', getattr_default md ''oid'')]]\<rparr>"
      unfolding eq ix by simp
    show "sent (snd (set_current_text srv render self text cl))
        = sent cl @ [Command ''object_properties'' [(''oid'', oid_of self)],
                     Command ''model'' [(''oid'', oid_of self)],
                     Command ''model_items'' [(''oid'', getattr_default md ''oid'')],
                     Command ''object_set_properties''
                       [(''oid'', oid_of self),
                        (''properties'', JObj [(''currentIndex'', JNum (real (row (attrs item))))])]]"
      unfolding w by (simp add: set_property_def call_set_properties_def sent_set_properties)
  next
    assume "find (\<lambda>item. py_eq col (JNum (real (column (attrs item))))
        \<and> item_value (attrs item) = text) (TreeItems_iter its) = None"
    then have ix: "text_index col text (TreeItems_iter its) = - 1"
      by (simp add: text_index_find)
    show "set_current_text srv render self text cl
        = (Inl (AssertionError
                  (''The text `'' @ text @ ''` is not in the combobox `''
                     @ py_format render (path_of self) @ ''`'')),
           \<lparr>remote = w3,
             sent = sent cl @ [Command ''object_properties'' [(''oid'', oid_of self)],
                               Command ''model'' [(''oid'', oid_of self)],
                               Command ''model_items'' [(''oid'', getattr_default md ''oid'')]]\<rparr>)"
      unfolding eq ix by (simp add: not_in_combobox_def)
  next
    show "py_format render (JStr p) = p" by (simp add: py_format_def)
  }
qed

theorem set_current_text_lookup_witness:
  "sent (snd (set_current_text combo_server (\<lambda>v. ''?'') combo_box ''Blue'' \<lparr>remote = (), sent = []\<rparr>))
     = [Command ''object_properties'' [(''oid'', JNum 7)],
        Command ''model'' [(''oid'', JNum 7)],
        Command ''model_items'' [(''oid'', JNum 8)],
        Command ''object_set_properties''
          [(''oid'', JNum 7), (''properties'', JObj [(''currentIndex'', JNum 1)])]]
   \<and> set_current_text combo_server (\<lambda>v. ''?'') combo_box ''Green'' \<lparr>remote = (), sent = []\<rparr>
     = (Inl (AssertionError ''The text `Green` is not in the combobox `dialog::colour`''),
        \<lparr>remote = (),
          sent = [Command ''object_properties'' [(''oid'', JNum 7)],
                  Command ''model'' [(''oid'', JNum 7)],
                  Command ''model_items'' [(''oid'', JNum 8)]]\<rparr>)"
proof -
  let ?cl = "\<lparr>remote = (), sent = []\<rparr> :: unit client"
  let ?ps = "[(''enabled'', JBool True), (''visible'', JBool True), (''modelColumn'', JNum 0)]"
  let ?md = "[(''oid'', JNum 8), (''classes'', JArr [JStr ''QStandardItemModel'', JStr ''QObject''])]"
  have oid: "oid_of combo_box = JNum 7" and path: "path_of combo_box = JStr ''dialog::colour''"
    by (simp_all add: combo_box_def Object_init_def oid_of_def path_of_def getattr_default_def)
  have a1: "answer combo_server (remote ?cl) (Command ''object_properties'' [(''oid'', oid_of combo_box)])
      = (Inr (JObj ?ps), ())"
    by (simp add: combo_server_def)
  have a2: "map_of ?ps ''modelColumn'' = Some (JNum 0)" by simp
  have a3: "answer combo_server () (Command ''model'' [(''oid'', oid_of combo_box)]) = (Inr (JObj ?md), ())"
    by (simp add: combo_server_def)
  have a4: "map_of ?md ''classes'' = Some (JArr (map JStr [''QStandardItemModel'', ''QObject'']))"
    by simp
  have a5: "find (\<lambda>n. cpp_classes n \<noteq> None) [''QStandardItemModel'', ''QObject''] = None"
    by (simp add: cpp_classes_eq)
  have a6: "answer_items combo_server () (Command ''model_items'' [(''oid'', getattr_default ?md ''oid'')])
      = (Inr combo_items, ())"
    by (simp add: combo_server_def)
  note T = set_current_text_lookup [OF a1 a2 a3 a4 a5 a6, of _ _ "\<lambda>v. ''?''"]
  have blue: "find (\<lambda>item. py_eq (JNum 0) (JNum (real (column (attrs item))))
        \<and> item_value (attrs item) = ''Blue'') (TreeItems_iter combo_items)
      = Some (example_item 1 0 ''Blue'' [])"
    by (simp add: combo_items_def example_item_def)
  have green: "find (\<lambda>item. py_eq (JNum 0) (JNum (real (column (attrs item))))
        \<and> item_value (attrs item) = ''Green'') (TreeItems_iter combo_items) = None"
    by (simp add: combo_items_def example_item_def)
  from T [of "''Blue''" "example_item 1 0 ''Blue'' []", THEN conjunct1, rule_format, OF blue,
      THEN conjunct2]
  have b: "sent (snd (set_current_text combo_server (\<lambda>v. ''?'') combo_box ''Blue'' ?cl))
     = [Command ''object_properties'' [(''oid'', JNum 7)],
        Command ''model'' [(''oid'', JNum 7)],
        Command ''model_items'' [(''oid'', JNum 8)],
        Command ''object_set_properties''
          [(''oid'', JNum 7), (''properties'', JObj [(''currentIndex'', JNum 1)])]]"
    by (simp add: oid example_item_def getattr_default_def)
  from T [of "''Green''", THEN conjunct2, THEN conjunct1, rule_format, OF green]
  have g: "set_current_text combo_server (\<lambda>v. ''?'') combo_box ''Green'' ?cl
     = (Inl (AssertionError ''The text `Green` is not in the combobox `dialog::colour`''),
        \<lparr>remote = (),
          sent = [Command ''object_properties'' [(''oid'', JNum 7)],
                  Command ''model'' [(''oid'', JNum 7)],
                  Command ''model_items'' [(''oid'', JNum 8)]]\<rparr>)"
    by (simp add: oid path py_format_def getattr_default_def)
  from b g show ?thesis by simp
qed

end
